theory Spec2Isabelle
  imports Complex_Main
begin

section \<open>The eye display of \<^verbatim>\<open>face_display.py\<close>\<close>

text \<open>
  A shallow embedding of the class \<^verbatim>\<open>FaceDisplay\<close>. Python floats are read as real
  numbers (exact arithmetic, no rounding, no NaN), Python ints as \<open>int\<close>. The object is a
  record that every method takes and returns; the Tk canvas it owns is part of the record
  (the coordinates of its six items); \<^verbatim>\<open>time.time()\<close> and the draw underlying
  \<^verbatim>\<open>random.uniform\<close> are arguments of the methods that call them; the calls of
  \<^verbatim>\<open>parent.after\<close> are returned as the list of the delays that were scheduled.
\<close>

subsection \<open>Python values and built-ins\<close>

text \<open>What an attribute of the pan/tilt object may hold: \<^verbatim>\<open>None\<close>, a number, or a value
  that supports no arithmetic with a float (a string, a list, ...).\<close>

datatype pyval = PyNone | PyNum real | PyOther

text \<open>What reading an attribute does: the attribute does not exist (\<^verbatim>\<open>AttributeError\<close>),
  the access raises another exception (a property that fails), or it yields a value.\<close>

datatype attr = NoAttr | AttrRaises | Attr pyval

record pan_tilt_obj =
  angle_pan :: attr
  angle_tilt :: attr

datatype py_error = TypeError | AttributeError | SourceError

text \<open>\<^verbatim>\<open>getattr(obj, name, None)\<close>: the default replaces an \<^verbatim>\<open>AttributeError\<close> only.\<close>

fun getattr_default :: "attr \<Rightarrow> py_error + pyval" where
  "getattr_default NoAttr = Inr PyNone"
| "getattr_default AttrRaises = Inl SourceError"
| "getattr_default (Attr v) = Inr v"

text \<open>\<^verbatim>\<open>int(x)\<close> on a float truncates towards zero.\<close>

definition py_int :: "real \<Rightarrow> int" where
  "py_int x = (if 0 \<le> x then \<lfloor>x\<rfloor> else \<lceil>x\<rceil>)"

text \<open>\<^verbatim>\<open>random.uniform(a, b)\<close> is \<^verbatim>\<open>a + (b - a) * random()\<close>; the draw \<open>r\<close> of
  \<^verbatim>\<open>random()\<close>, in \<open>[0, 1)\<close>, is an argument.\<close>

definition uniform :: "real \<Rightarrow> real \<Rightarrow> real \<Rightarrow> real" where
  "uniform a b r = a + (b - a) * r"

subsection \<open>The object\<close>

type_synonym coords = "real \<times> real \<times> real \<times> real"

record face_display =
  width :: int
  height :: int
  pan_tilt :: "pan_tilt_obj option"
  eye_radius :: real
  pupil_radius :: int
  left_center :: "int \<times> int"
  right_center :: "int \<times> int"
  left_white :: coords
  right_white :: coords
  left_pupil :: coords
  right_pupil :: coords
  left_lid :: coords
  right_lid :: coords
  pan_min :: real
  pan_max :: real
  tilt_min :: real
  tilt_max :: real
  pupil_travel :: real
  running :: bool
  blinking :: bool
  last_blink :: real
  next_blink_in :: real
  idle_phase :: real
  last_pan :: "real option"
  last_tilt :: "real option"
  smooth_pan :: real
  smooth_tilt :: real
  smooth_factor :: real
  interval_ms :: int
  blink_start :: "real option"

text \<open>\<^verbatim>\<open>__init__\<close>, with \<^verbatim>\<open>_create_graphics\<close> inlined. \<open>now\<close> is \<^verbatim>\<open>time.time()\<close>, \<open>r\<close> the
  random draw. The attribute \<^verbatim>\<open>blink_start\<close> does not exist yet: \<open>None\<close>.\<close>

definition init :: "int \<Rightarrow> int \<Rightarrow> pan_tilt_obj option \<Rightarrow> real \<Rightarrow> real \<Rightarrow> face_display" where
  "init w h pt now r =
    (let er = real_of_int (min w h) * 0.18;
         pr = max 6 (py_int (er * 0.36));
         gap = py_int (er * 1.2);
         cx = w div 2;
         cy = py_int (real_of_int h * 0.44);
         lc = (cx - gap div 2, cy);
         rc = (cx + gap div 2, cy)
     in \<lparr> width = w, height = h, pan_tilt = pt,
          eye_radius = er, pupil_radius = pr,
          left_center = lc, right_center = rc,
          left_white = (real_of_int (fst lc) - er, real_of_int (snd lc) - er,
                        real_of_int (fst lc) + er, real_of_int (snd lc) + er),
          right_white = (real_of_int (fst rc) - er, real_of_int (snd rc) - er,
                         real_of_int (fst rc) + er, real_of_int (snd rc) + er),
          left_pupil = (real_of_int (fst lc - pr), real_of_int (snd lc - pr),
                        real_of_int (fst lc + pr), real_of_int (snd lc + pr)),
          right_pupil = (real_of_int (fst rc - pr), real_of_int (snd rc - pr),
                         real_of_int (fst rc + pr), real_of_int (snd rc + pr)),
          left_lid = (0, 0, 0, 0), right_lid = (0, 0, 0, 0),
          pan_min = 0.0, pan_max = 180.0, tilt_min = 30.0, tilt_max = 150.0,
          pupil_travel = er - real_of_int pr - 6,
          running = False, blinking = False,
          last_blink = now, next_blink_in = uniform 3.0 10.0 r,
          idle_phase = 0.0, last_pan = None, last_tilt = None,
          smooth_pan = 90.0, smooth_tilt = 90.0, smooth_factor = 0.18,
          interval_ms = 60, blink_start = None \<rparr>)"

subsection \<open>Geometry\<close>

definition angle_to_offset :: "face_display \<Rightarrow> real \<Rightarrow> real \<Rightarrow> real \<times> real" where
  "angle_to_offset s pan tilt =
    (let pn = (pan - pan_min s) / (pan_max s - pan_min s);
         tn = (tilt - tilt_min s) / (tilt_max s - tilt_min s);
         px = (pn - 0.5) * 2.0;
         py = (tn - 0.5) * 2.0;
         py = - py;
         px = max (- 1.0) (min 1.0 px);
         py = max (- 1.0) (min 1.0 py)
     in (px * pupil_travel s, py * (pupil_travel s * 0.6)))"

definition apply_offsets :: "real \<times> real \<Rightarrow> face_display \<Rightarrow> face_display" where
  "apply_offsets d s =
    (let dx = fst d; dy = snd d;
         lx = real_of_int (fst (left_center s)); ly = real_of_int (snd (left_center s));
         rx = real_of_int (fst (right_center s)); ry = real_of_int (snd (right_center s));
         pr = real_of_int (pupil_radius s)
     in s\<lparr> left_pupil := (lx + dx - pr, ly + dy - pr, lx + dx + pr, ly + dy + pr),
            right_pupil := (rx + dx - pr, ry + dy - pr, rx + dx + pr, ry + dy + pr) \<rparr>)"

text \<open>The rectangle \<^verbatim>\<open>_draw_blink\<close> gives the lid of the eye centred at \<open>c\<close>.\<close>

definition lid_rect :: "real \<Rightarrow> int \<times> int \<Rightarrow> real \<Rightarrow> coords" where
  "lid_rect er c progress =
    (let cx = real_of_int (fst c); cy = real_of_int (snd c);
         lid_h = py_int (er * 2 * progress)
     in (cx - er, cy - er, cx + er, cy - er + real_of_int lid_h))"

definition draw_blink :: "real \<Rightarrow> face_display \<Rightarrow> face_display" where
  "draw_blink progress s =
    s\<lparr> left_lid := lid_rect (eye_radius s) (left_center s) progress,
       right_lid := lid_rect (eye_radius s) (right_center s) progress \<rparr>"

definition clear_blink :: "face_display \<Rightarrow> face_display" where
  "clear_blink s = s\<lparr> left_lid := (0, 0, 0, 0), right_lid := (0, 0, 0, 0) \<rparr>"

definition idle_offsets :: "real \<Rightarrow> real \<times> real" where
  "idle_offsets t =
    (let jitter_x = sin (t * 0.8) * 2.0 + sin (t * 1.3) * 1.0;
         jitter_y = cos (t * 1.1) * 1.2
     in (jitter_x, jitter_y * 0.6))"

subsection \<open>Smoothing\<close>

definition update_from_angles :: "real \<Rightarrow> real \<Rightarrow> face_display \<Rightarrow> face_display" where
  "update_from_angles pan tilt s =
    (let s1 = s\<lparr> smooth_pan := smooth_pan s + (pan - smooth_pan s) * smooth_factor s \<rparr>;
         s2 = s1\<lparr> smooth_tilt := smooth_tilt s1 + (tilt - smooth_tilt s1) * smooth_factor s1 \<rparr>
     in apply_offsets (angle_to_offset s2 (smooth_pan s2) (smooth_tilt s2)) s2)"

text \<open>The call \<^verbatim>\<open>self.update_from_angles(pan, tilt)\<close> of the loop, on values that are not
  \<^verbatim>\<open>None\<close> but need not be numbers: the subtraction raises \<^verbatim>\<open>TypeError\<close> on the first
  that is not, after the pan was smoothed if only the tilt is at fault.\<close>

fun update_from_values :: "pyval \<Rightarrow> pyval \<Rightarrow> face_display \<Rightarrow> face_display \<times> py_error option" where
  "update_from_values (PyNum p) (PyNum t) s = (update_from_angles p t s, None)"
| "update_from_values (PyNum p) _ s =
     (s\<lparr> smooth_pan := smooth_pan s + (p - smooth_pan s) * smooth_factor s \<rparr>, Some TypeError)"
| "update_from_values _ _ s = (s, Some TypeError)"

subsection \<open>The tick\<close>

text \<open>The blink part of \<^verbatim>\<open>_loop\<close> (the two \<^verbatim>\<open>if\<close> statements after \<^verbatim>\<open>now = time.time()\<close>).
  Reading \<^verbatim>\<open>self.blink_start\<close> before it was ever assigned raises \<^verbatim>\<open>AttributeError\<close>.\<close>

definition blink_update :: "real \<Rightarrow> real \<Rightarrow> face_display \<Rightarrow> py_error + face_display" where
  "blink_update now r s =
    (let s1 = (if now - last_blink s > next_blink_in s \<and> \<not> blinking s
               then s\<lparr> blinking := True, blink_start := Some now \<rparr> else s)
     in if blinking s1 then
          (case blink_start s1 of
             None \<Rightarrow> Inl AttributeError
           | Some b \<Rightarrow>
               (let elapsed = now - b
                in if elapsed < 0.08 then Inr (draw_blink (min 1.0 (elapsed / 0.08)) s1)
                   else if elapsed < 0.18 then Inr (draw_blink 1.0 s1)
                   else if elapsed < 0.26
                     then Inr (draw_blink (max 0.0 (1.0 - (elapsed - 0.18) / 0.08)) s1)
                   else Inr ((clear_blink (s1\<lparr> blinking := False \<rparr>))
                              \<lparr> last_blink := now, next_blink_in := uniform 3.0 12.0 r \<rparr>)))
        else Inr s1)"

text \<open>Reading the two angles: \<^verbatim>\<open>None\<close> for both when there is no pan/tilt object.\<close>

definition read_angles :: "face_display \<Rightarrow> py_error + (pyval \<times> pyval)" where
  "read_angles s =
    (case pan_tilt s of
       None \<Rightarrow> Inr (PyNone, PyNone)
     | Some pt \<Rightarrow>
         (case getattr_default (angle_pan pt) of
            Inl e \<Rightarrow> Inl e
          | Inr pan \<Rightarrow>
              (case getattr_default (angle_tilt pt) of
                 Inl e \<Rightarrow> Inl e
               | Inr tilt \<Rightarrow> Inr (pan, tilt))))"

text \<open>\<^verbatim>\<open>_loop\<close>: the object after the call, and either the exception that left it or the
  delays passed to \<^verbatim>\<open>parent.after\<close>.\<close>

definition loop :: "real \<Rightarrow> real \<Rightarrow> face_display \<Rightarrow> face_display \<times> (py_error + int list)" where
  "loop now r s =
    (if \<not> running s then (s, Inr [])
     else
       (case blink_update now r s of
          Inl e \<Rightarrow> (s, Inl e)
        | Inr s2 \<Rightarrow>
            (case read_angles s2 of
               Inl e \<Rightarrow> (s2, Inl e)
             | Inr (pan, tilt) \<Rightarrow>
                 if pan \<noteq> PyNone \<and> tilt \<noteq> PyNone then
                   (case update_from_values pan tilt s2 of
                      (s3, Some e) \<Rightarrow> (s3, Inl e)
                    | (s3, None) \<Rightarrow> (s3, Inr [interval_ms s3]))
                 else
                   (let t = now;
                        s3 = apply_offsets (idle_offsets (t + idle_phase s2)) s2
                    in (s3, Inr [interval_ms s3])))))"

definition start :: "int \<Rightarrow> face_display \<Rightarrow> face_display \<times> int list" where
  "start ms s =
    (if running s then (s, [])
     else (s\<lparr> interval_ms := ms, running := True \<rparr>, [0]))"

definition stop :: "face_display \<Rightarrow> face_display" where
  "stop s = s\<lparr> running := False \<rparr>"

subsection \<open>Histories of an object\<close>

text \<open>What can happen to a display after its construction: the three public methods, a
  firing of the timer callback \<^verbatim>\<open>_loop\<close> (with the clock and the random draw it sees), and
  the pan/tilt object changing behind the display's back.\<close>

datatype event =
    Start int
  | Stop
  | Tick real real
  | Angles real real
  | Source "pan_tilt_obj option"

fun exec :: "event \<Rightarrow> face_display \<Rightarrow> face_display" where
  "exec (Start ms) s = fst (start ms s)"
| "exec Stop s = stop s"
| "exec (Tick now r) s = fst (loop now r s)"
| "exec (Angles p t) s = update_from_angles p t s"
| "exec (Source pt) s = s\<lparr> pan_tilt := pt \<rparr>"

definition run :: "event list \<Rightarrow> face_display \<Rightarrow> face_display" where
  "run es s = fold exec es s"

text \<open>The attributes that are assigned in \<^verbatim>\<open>__init__\<close> only.\<close>

definition settings :: "face_display \<Rightarrow> real \<times> real \<times> real \<times> real \<times> real \<times> real" where
  "settings s =
    (pan_min s, pan_max s, tilt_min s, tilt_max s, pupil_travel s, smooth_factor s)"

subsection \<open>The mapping as the specification words it\<close>

text \<open>Normalise pan over \<open>[0, 180]\<close> and tilt over \<open>[30, 150]\<close>, centre to \<open>[-1, 1]\<close>, invert
  the vertical axis, saturate each axis, scale by the travel (60 percent of it vertically).\<close>

definition spec_angle_to_offset :: "real \<Rightarrow> real \<Rightarrow> real \<Rightarrow> real \<times> real" where
  "spec_angle_to_offset travel pan tilt =
    (let pn = (pan - 0) / 180;
         tn = (tilt - 30) / 120;
         h = 2 * pn - 1;
         v = - (2 * tn - 1);
         h = (if h < - 1 then - 1 else if 1 < h then 1 else h);
         v = (if v < - 1 then - 1 else if 1 < v then 1 else v)
     in (h * travel, v * (0.6 * travel)))"

subsection \<open>Smoothing runs\<close>

text \<open>The values \<^verbatim>\<open>__init__\<close> gives the two domains and the smoothing factor.\<close>

definition configured :: "face_display \<Rightarrow> bool" where
  "configured s \<longleftrightarrow>
     pan_min s = 0 \<and> pan_max s = 180 \<and> tilt_min s = 30 \<and> tilt_max s = 150 \<and>
     smooth_factor s = 0.18"

definition in_domain :: "face_display \<Rightarrow> real \<Rightarrow> real \<Rightarrow> bool" where
  "in_domain s p t \<longleftrightarrow>
     pan_min s \<le> p \<and> p \<le> pan_max s \<and> tilt_min s \<le> t \<and> t \<le> tilt_max s"

text \<open>A sequence of targets, each passed to \<^verbatim>\<open>update_from_angles\<close>.\<close>

definition feed :: "(real \<times> real) list \<Rightarrow> face_display \<Rightarrow> face_display" where
  "feed targets s = fold (\<lambda>(p, t). update_from_angles p t) targets s"

subsection \<open>The blink as a state machine\<close>

text \<open>The specification's four blink states, read off the object at the time \<open>now\<close> of
  the tick that has just run: \<^verbatim>\<open>blinking\<close> is false when open, and the branch of the
  \<^verbatim>\<open>if elapsed < ...\<close> chain taken tells the three others apart.\<close>

datatype blink_state = Open | Closing | Closed | Opening

definition blink_state_at :: "real \<Rightarrow> face_display \<Rightarrow> blink_state" where
  "blink_state_at now s =
    (if \<not> blinking s then Open
     else case blink_start s of
            None \<Rightarrow> Open
          | Some b \<Rightarrow>
              if now - b < 0.08 then Closing
              else if now - b < 0.18 then Closed
              else Opening)"

text \<open>The progress \<^verbatim>\<open>_loop\<close> passes to \<^verbatim>\<open>_draw_blink\<close> when \<open>elapsed\<close> seconds of a blink
  have passed: the fraction of the eye's height the lid is to cover. From 0.26 seconds on
  nothing is drawn and the lids are cleared: 0.\<close>

definition blink_coverage :: "real \<Rightarrow> real" where
  "blink_coverage elapsed =
    (if elapsed < 0.08 then min 1.0 (elapsed / 0.08)
     else if elapsed < 0.18 then 1.0
     else if elapsed < 0.26 then max 0.0 (1.0 - (elapsed - 0.18) / 0.08)
     else 0)"

text \<open>A blink that started at \<open>t0\<close> is under way.\<close>

definition mid_blink :: "real \<Rightarrow> face_display \<Rightarrow> bool" where
  "mid_blink t0 s \<longleftrightarrow> blinking s \<and> blink_start s = Some t0"

text \<open>\<^verbatim>\<open>blink_start\<close> exists whenever \<^verbatim>\<open>blinking\<close> is set.\<close>

definition blink_attr_ok :: "face_display \<Rightarrow> bool" where
  "blink_attr_ok s \<longleftrightarrow> (blinking s \<longrightarrow> blink_start s \<noteq> None)"

subsection \<open>The display of the dashboard and its ticks\<close>

text \<open>\<^verbatim>\<open>Dashboard.__init__\<close> builds \<^verbatim>\<open>FaceDisplay(frame, width=640, height=320, pan_tilt=...)\<close>
  and calls \<^verbatim>\<open>start(interval_ms=60)\<close> on it.\<close>

definition dashboard_face :: "pan_tilt_obj option \<Rightarrow> real \<Rightarrow> real \<Rightarrow> face_display" where
  "dashboard_face pt now r = fst (start 60 (init 640 320 pt now r))"

text \<open>The display after each of successive calls of \<^verbatim>\<open>_loop\<close>, given the clock and the
  random draw each call sees.\<close>

fun after_ticks :: "(real \<times> real) list \<Rightarrow> face_display \<Rightarrow> face_display list" where
  "after_ticks [] s = []"
| "after_ticks (tk # tks) s =
     fst (loop (fst tk) (snd tk) s) # after_ticks tks (fst (loop (fst tk) (snd tk) s))"

subsection \<open>What the lids cover\<close>

text \<open>The box of the oval \<^verbatim>\<open>_create_graphics\<close> draws for an eye; the eyes of a display are
  drawn when both whites are these boxes, of a positive radius.\<close>

definition eye_box :: "real \<Rightarrow> int \<times> int \<Rightarrow> coords" where
  "eye_box er c =
    (real_of_int (fst c) - er, real_of_int (snd c) - er,
     real_of_int (fst c) + er, real_of_int (snd c) + er)"

definition eyes_drawn :: "face_display \<Rightarrow> bool" where
  "eyes_drawn s \<longleftrightarrow>
     0 < eye_radius s \<and>
     left_white s = eye_box (eye_radius s) (left_center s) \<and>
     right_white s = eye_box (eye_radius s) (right_center s)"

text \<open>The rectangle that spans an eye's box from its top edge down \<open>h\<close> pixels.\<close>

definition lid_over :: "coords \<Rightarrow> real \<Rightarrow> coords" where
  "lid_over eye h = (case eye of (x0, y0, x1, y1) \<Rightarrow> (x0, y0, x1, y0 + h))"

text \<open>The fraction of an eye's height that lies under a lid: the part of the box's
  vertical extent the rectangle overlaps, for a rectangle that spans the box's width; a
  rectangle that does not (the cleared lid) covers nothing.\<close>

definition covered_fraction :: "coords \<Rightarrow> coords \<Rightarrow> real" where
  "covered_fraction eye lid =
    (case eye of (ex0, ey0, ex1, ey1) \<Rightarrow>
     case lid of (lx0, ly0, lx1, ly1) \<Rightarrow>
       if lx0 \<le> ex0 \<and> ex1 \<le> lx1
       then max 0 (min ly1 ey1 - max ly0 ey0) / (ey1 - ey0)
       else 0)"

definition left_coverage :: "face_display \<Rightarrow> real" where
  "left_coverage s = covered_fraction (left_white s) (left_lid s)"

definition right_coverage :: "face_display \<Rightarrow> real" where
  "right_coverage s = covered_fraction (right_white s) (right_lid s)"

text \<open>The height in whole pixels of the lid, \<open>e\<close> seconds into a blink (before 0.26 s), on
  an eye of radius \<open>R\<close>: the eye's height times the progress of the phase, truncated.\<close>

definition lid_pixels :: "real \<Rightarrow> real \<Rightarrow> int" where
  "lid_pixels R e =
    (if e < 0.08 then \<lfloor>2 * R * (e / 0.08)\<rfloor>
     else if e < 0.18 then \<lfloor>2 * R\<rfloor>
     else \<lfloor>2 * R * (1 - (e - 0.18) / 0.08)\<rfloor>)"

text \<open>The order of the states in a cycle; tick times that never go back and are at most
  \<open>g\<close> apart.\<close>

fun blink_rank :: "blink_state \<Rightarrow> nat" where
  "blink_rank Closing = 0"
| "blink_rank Closed = 1"
| "blink_rank Opening = 2"
| "blink_rank Open = 3"

fun spaced :: "real \<Rightarrow> real list \<Rightarrow> bool" where
  "spaced g [] = True"
| "spaced g [x] = True"
| "spaced g (x # y # ys) = (x \<le> y \<and> y - x \<le> g \<and> spaced g (y # ys))"

text \<open>What no tick changes: the running flag and the eyes.\<close>

definition frame :: "face_display \<Rightarrow> bool \<times> real \<times> (int \<times> int) \<times> (int \<times> int) \<times> coords \<times> coords" where
  "frame s = (running s, eye_radius s, left_center s, right_center s, left_white s, right_white s)"

text \<open>The state a tick finds \<open>e\<close> seconds after the blink began, and what the tick \<open>tk\<close>
  of a blink begun at \<open>t0\<close> on the display \<open>s\<close> leaves to be seen on the display \<open>s'\<close>.\<close>

definition phase_at :: "real \<Rightarrow> blink_state" where
  "phase_at e =
    (if e < 0.08 then Closing else if e < 0.18 then Closed
     else if e < 0.26 then Opening else Open)"

definition blink_seen :: "real \<Rightarrow> face_display \<Rightarrow> real \<times> real \<Rightarrow> face_display \<Rightarrow> bool" where
  "blink_seen t0 s tk s' \<longleftrightarrow>
     frame s' = frame s \<and>
     blink_state_at (fst tk) s' = phase_at (fst tk - t0) \<and>
     (if fst tk - t0 < 0.26
      then mid_blink t0 s' \<and>
           left_lid s' = lid_over (left_white s) (real_of_int (lid_pixels (eye_radius s) (fst tk - t0))) \<and>
           right_lid s' = lid_over (right_white s) (real_of_int (lid_pixels (eye_radius s) (fst tk - t0))) \<and>
           left_coverage s' = real_of_int (lid_pixels (eye_radius s) (fst tk - t0)) / (2 * eye_radius s) \<and>
           right_coverage s' = real_of_int (lid_pixels (eye_radius s) (fst tk - t0)) / (2 * eye_radius s)
      else \<not> blinking s' \<and>
           left_lid s' = (0, 0, 0, 0) \<and> right_lid s' = (0, 0, 0, 0) \<and>
           left_coverage s' = 0 \<and> right_coverage s' = 0 \<and>
           last_blink s' = fst tk \<and> next_blink_in s' = uniform 3 12 (snd tk))"

subsection \<open>The angle source and the timer\<close>

text \<open>The pan/tilt object gives no live data: there is none, or neither attribute access
  raises and one of the two is missing or \<^verbatim>\<open>None\<close>.\<close>

definition no_live_angles :: "pan_tilt_obj option \<Rightarrow> bool" where
  "no_live_angles src =
    (case src of
       None \<Rightarrow> True
     | Some pt \<Rightarrow>
         angle_pan pt \<noteq> AttrRaises \<and> angle_tilt pt \<noteq> AttrRaises \<and>
         (angle_pan pt = NoAttr \<or> angle_pan pt = Attr PyNone \<or>
          angle_tilt pt = NoAttr \<or> angle_tilt pt = Attr PyNone))"

text \<open>Tk's timer queue, as far as the display fills it: the number of calls of \<^verbatim>\<open>_loop\<close>
  that \<^verbatim>\<open>parent.after\<close> has registered and that have not run yet. Firing one runs
  \<^verbatim>\<open>_loop\<close> and registers what it schedules; an exception in the callback registers
  nothing.\<close>

definition fire :: "real \<Rightarrow> real \<Rightarrow> face_display \<times> nat \<Rightarrow> face_display \<times> nat" where
  "fire now r sys =
    (case sys of
       (s, pending) \<Rightarrow>
         if pending = 0 then (s, pending)
         else (case loop now r s of
                 (s', Inl e) \<Rightarrow> (s', pending - 1)
               | (s', Inr delays) \<Rightarrow> (s', pending - 1 + length delays)))"

definition fires :: "(real \<times> real) list \<Rightarrow> face_display \<times> nat \<Rightarrow> face_display \<times> nat" where
  "fires ins sys = fold (\<lambda>(now, r). fire now r) ins sys"

subsection \<open>Random draws\<close>

text \<open>Every tick of a history sees a draw of \<^verbatim>\<open>random()\<close> in \<open>[0, 1]\<close>; the interval until
  the next blink is between 3 and 12 seconds.\<close>

definition draws_ok :: "event list \<Rightarrow> bool" where
  "draws_ok es = list_all (\<lambda>e. case e of Tick now r \<Rightarrow> 0 \<le> r \<and> r \<le> 1 | _ \<Rightarrow> True) es"

definition interval_ok :: "face_display \<Rightarrow> bool" where
  "interval_ok s \<longleftrightarrow> 3 \<le> next_blink_in s \<and> next_blink_in s \<le> 12"

section \<open>Properties\<close>

subsection \<open>The settings never change\<close>

lemma settings_apply_offsets: "settings (apply_offsets d s) = settings s"
  by (simp add: settings_def apply_offsets_def Let_def)

lemma settings_draw_blink: "settings (draw_blink p s) = settings s"
  by (simp add: settings_def draw_blink_def)

lemma settings_update_from_angles: "settings (update_from_angles p t s) = settings s"
  by (simp add: update_from_angles_def Let_def settings_apply_offsets) (simp add: settings_def)

lemma settings_update_from_values: "settings (fst (update_from_values p t s)) = settings s"
  by (cases "(p, t, s)" rule: update_from_values.cases)
     (simp_all add: settings_update_from_angles, simp_all add: settings_def)

lemma settings_blink_update: "blink_update now r s = Inr s' \<Longrightarrow> settings s' = settings s"
  by (auto simp: blink_update_def Let_def settings_draw_blink clear_blink_def
        split: if_splits option.splits) (simp_all add: settings_def)

lemma settings_loop: "settings (fst (loop now r s)) = settings s"
  using settings_update_from_values
  by (auto simp: loop_def Let_def settings_apply_offsets
        dest!: settings_blink_update split: sum.splits prod.splits option.splits)
     (metis fst_conv)+

lemma settings_exec: "settings (exec e s) = settings s"
  by (cases e)
     (simp_all add: settings_loop settings_update_from_angles start_def stop_def,
      simp_all add: settings_def)

lemma settings_run: "settings (run es s) = settings s"
  unfolding run_def by (induction es arbitrary: s) (simp_all add: settings_exec)

lemma settings_init:
  "settings (init w h pt now r) = (0, 180, 30, 150, pupil_travel (init w h pt now r), 0.18)"
  by (simp add: settings_def init_def Let_def)

lemma pupil_travel_run: "pupil_travel (run es s) = pupil_travel s"
  using settings_run [of es s] by (simp add: settings_def)

subsection \<open>The angle-to-offset mapping\<close>

lemma angle_to_offset_settings:
  "settings s = (0, 180, 30, 150, T, f) \<Longrightarrow>
     angle_to_offset s pan tilt = spec_angle_to_offset T pan tilt"
  by (auto simp: settings_def angle_to_offset_def spec_angle_to_offset_def Let_def
        max_def min_def)

text \<open>C1. On every display, whatever its size and whatever happened to it since its
  construction, \<^verbatim>\<open>angle_to_offset\<close> is the mapping of the specification, for every pan and
  tilt; and pan 0, tilt 90 gives the offset \<open>(- pupil_travel, 0)\<close>.\<close>

theorem angle_to_offset_refines_spec:
  "angle_to_offset (run es (init w h pt now r)) pan tilt =
     spec_angle_to_offset (pupil_travel (run es (init w h pt now r))) pan tilt
   \<and> angle_to_offset (run es (init w h pt now r)) 0 90 =
     (- pupil_travel (run es (init w h pt now r)), 0)"
proof -
  let ?s = "run es (init w h pt now r)"
  have st: "settings ?s = (0, 180, 30, 150, pupil_travel ?s, 0.18)"
    by (simp add: settings_run settings_init pupil_travel_run)
  have ref: "angle_to_offset ?s p t = spec_angle_to_offset (pupil_travel ?s) p t" for p t
    using st by (rule angle_to_offset_settings)
  have "spec_angle_to_offset T 0 90 = (- T, 0)" for T
    by (simp add: spec_angle_to_offset_def Let_def)
  with ref show ?thesis by simp
qed

subsection \<open>The rectangle of offsets\<close>

text \<open>The travel is \<open>eye_radius - pupil_radius - 6\<close>, and nothing keeps it positive: a
  50 by 50 display has eye radius 9, pupil radius 6 and travel \<open>-3\<close>.\<close>

lemma pupil_travel_small: "pupil_travel (init 50 50 pt now r) = - 3"
  by (simp add: init_def Let_def py_int_def)

lemma pupil_travel_default: "pupil_travel (init 640 320 pt now r) = 31.6"
  by (simp add: init_def Let_def py_int_def)

lemma pupil_travel_init_nonneg:
  assumes "67 \<le> min w h"
  shows "0 \<le> pupil_travel (init w h pt now r)"
proof -
  define m where "m = real_of_int (min w h)"
  have m: "67 \<le> m" using assms unfolding m_def by linarith
  have er: "0 \<le> m * 0.18 * 0.36" using m by simp
  have fl: "real_of_int \<lfloor>m * 0.18 * 0.36\<rfloor> \<le> m * 0.18 * 0.36" by (rule of_int_floor_le)
  have "real_of_int (max 6 \<lfloor>m * 0.18 * 0.36\<rfloor>) \<le> max 6 (m * 0.18 * 0.36)"
    using fl by (simp add: max_def)
  also have "\<dots> \<le> m * 0.18 - 6" using m by (simp add: max_def)
  finally have "0 \<le> m * 0.18 - real_of_int (max 6 \<lfloor>m * 0.18 * 0.36\<rfloor>) - 6" by simp
  thus ?thesis using er
    by (simp add: init_def Let_def py_int_def m_def)
qed

lemma clamp_times_travel:
  fixes T :: real
  assumes "0 \<le> T"
  shows "- T \<le> max (- 1) (min 1 x) * T" and "max (- 1) (min 1 x) * T \<le> T"
proof -
  have a: "- 1 \<le> max (- 1) (min 1 x)" and b: "max (- 1) (min 1 x) \<le> 1" by simp_all
  from mult_right_mono [OF a assms] show "- T \<le> max (- 1) (min 1 x) * T" by simp
  from mult_right_mono [OF b assms] show "max (- 1) (min 1 x) * T \<le> T" by simp
qed

text \<open>C2 as stated fails on a small display: on the 50 by 50 display, pan 0 and tilt 90
  are in their domains and the horizontal offset, 3, is above the travel, \<open>-3\<close>.\<close>

theorem angle_offset_rectangle_counterexample:
  "pan_min (init 50 50 None 0 0) \<le> 0 \<and> 0 \<le> pan_max (init 50 50 None 0 0)
   \<and> tilt_min (init 50 50 None 0 0) \<le> 90 \<and> 90 \<le> tilt_max (init 50 50 None 0 0)
   \<and> \<not> fst (angle_to_offset (init 50 50 None 0 0) 0 90) \<le> pupil_travel (init 50 50 None 0 0)"
  by (simp add: init_def Let_def py_int_def angle_to_offset_def)

text \<open>C2, amended. On a display whose travel is not negative (every display at least 67
  pixels wide and high, by \<open>pupil_travel_init_nonneg\<close>), for every pan in
  \<open>[pan_min, pan_max]\<close> and tilt in \<open>[tilt_min, tilt_max]\<close>, the offset \<open>(dx, dy)\<close> of
  \<^verbatim>\<open>angle_to_offset\<close> has \<open>- pupil_travel \<le> dx \<le> pupil_travel\<close> and
  \<open>- 0.6 * pupil_travel \<le> dy \<le> 0.6 * pupil_travel\<close>.\<close>

theorem angle_offset_rectangle:
  assumes "0 \<le> pupil_travel s"
    and "pan_min s \<le> pan" and "pan \<le> pan_max s"
    and "tilt_min s \<le> tilt" and "tilt \<le> tilt_max s"
  shows "- pupil_travel s \<le> fst (angle_to_offset s pan tilt)
       \<and> fst (angle_to_offset s pan tilt) \<le> pupil_travel s
       \<and> - (0.6 * pupil_travel s) \<le> snd (angle_to_offset s pan tilt)
       \<and> snd (angle_to_offset s pan tilt) \<le> 0.6 * pupil_travel s"
proof -
  have T6: "0 \<le> pupil_travel s * 0.6" using assms(1) by simp
  show ?thesis
    using clamp_times_travel [OF assms(1)] clamp_times_travel [OF T6]
    by (simp add: angle_to_offset_def Let_def)
qed

text \<open>The default 640 by 320 display, at pan 0 and tilt 90.\<close>

theorem angle_offset_rectangle_witness:
  "0 \<le> pupil_travel (init 640 320 None 0 0)
   \<and> pan_min (init 640 320 None 0 0) \<le> 0 \<and> 0 \<le> pan_max (init 640 320 None 0 0)
   \<and> tilt_min (init 640 320 None 0 0) \<le> 90 \<and> 90 \<le> tilt_max (init 640 320 None 0 0)
   \<and> - pupil_travel (init 640 320 None 0 0) \<le> fst (angle_to_offset (init 640 320 None 0 0) 0 90)
   \<and> fst (angle_to_offset (init 640 320 None 0 0) 0 90) \<le> pupil_travel (init 640 320 None 0 0)
   \<and> - (0.6 * pupil_travel (init 640 320 None 0 0))
       \<le> snd (angle_to_offset (init 640 320 None 0 0) 0 90)
   \<and> snd (angle_to_offset (init 640 320 None 0 0) 0 90)
       \<le> 0.6 * pupil_travel (init 640 320 None 0 0)"
proof -
  have c: "pan_min (init 640 320 None 0 0) = 0" "pan_max (init 640 320 None 0 0) = 180"
    "tilt_min (init 640 320 None 0 0) = 30" "tilt_max (init 640 320 None 0 0) = 150"
    by (simp_all add: init_def Let_def)
  show ?thesis
    using angle_offset_rectangle [of "init 640 320 None 0 0" 0 90]
    by (simp add: pupil_travel_default c)
qed

subsection \<open>Smoothing\<close>

lemma configured_run_init: "configured (run es (init w h pt now r))"
  using settings_run [of es "init w h pt now r"] settings_init [of w h pt now r]
  by (simp add: configured_def settings_def)

lemma smooth_update_from_angles:
  "smooth_pan (update_from_angles p t s) = smooth_pan s + (p - smooth_pan s) * smooth_factor s"
  "smooth_tilt (update_from_angles p t s) = smooth_tilt s + (t - smooth_tilt s) * smooth_factor s"
  by (simp_all add: update_from_angles_def apply_offsets_def Let_def)

lemma smooth_factor_update_from_angles [simp]:
  "smooth_factor (update_from_angles p t s) = smooth_factor s"
  using settings_update_from_angles [of p t s] by (simp add: settings_def)

lemma smooth_factor_funpow [simp]:
  "smooth_factor ((update_from_angles p t ^^ n) s) = smooth_factor s"
  by (induction n) simp_all

lemma smooth_error_step:
  "smooth_pan (update_from_angles p t s) - p = (1 - smooth_factor s) * (smooth_pan s - p)"
  "smooth_tilt (update_from_angles p t s) - t = (1 - smooth_factor s) * (smooth_tilt s - t)"
  by (simp_all add: smooth_update_from_angles algebra_simps)

lemma smooth_error_funpow:
  "smooth_pan ((update_from_angles p t ^^ n) s) - p = (1 - smooth_factor s) ^ n * (smooth_pan s - p)"
  "smooth_tilt ((update_from_angles p t ^^ n) s) - t = (1 - smooth_factor s) ^ n * (smooth_tilt s - t)"
  by (induction n) (simp_all add: smooth_error_step)

lemma shrink_bound:
  fixes c d e b :: real
  assumes "0 \<le> c" and "\<bar>d\<bar> \<le> b" and "c * b \<le> e"
  shows "\<bar>c * d\<bar> \<le> e"
proof -
  have "\<bar>c * d\<bar> = c * \<bar>d\<bar>" using assms(1) by (simp add: abs_mult)
  also have "\<dots> \<le> c * b" using assms(1,2) by (rule mult_left_mono[rotated])
  finally show ?thesis using assms(3) by simp
qed

lemma pow61: "(0.82::real) ^ 61 * 180 \<le> 1 / 1000" by (simp add: power_divide)
lemma pow50: "(0.82::real) ^ 50 * 180 \<le> 1 / 100" by (simp add: power_divide)
lemma pow50_low: "1 / 1000 < (0.82::real) ^ 50 * 90" by (simp add: power_divide)

text \<open>C3 as stated fails. A new display has smoothed pan 90; with the constant target
  180, both in the domain, 50 updates leave the smoothed pan \<open>90 * 0.82 ^ 50\<close>, about
  0.0044, away from the target: more than 0.001.\<close>

theorem smoothing_50_ticks_counterexample:
  "in_domain (init 640 320 None 0 0) 180 90
   \<and> in_domain (init 640 320 None 0 0) (smooth_pan (init 640 320 None 0 0)) (smooth_tilt (init 640 320 None 0 0))
   \<and> \<not> \<bar>smooth_pan ((update_from_angles 180 90 ^^ 50) (init 640 320 None 0 0)) - 180\<bar> \<le> 1 / 1000"
proof -
  let ?s = "init 640 320 None 0 0"
  have f: "smooth_factor ?s = 0.18" "smooth_pan ?s = 90" "smooth_tilt ?s = 90"
    "pan_min ?s = 0" "pan_max ?s = 180" "tilt_min ?s = 30" "tilt_max ?s = 150"
    by (simp_all add: init_def Let_def)
  have "smooth_pan ((update_from_angles 180 90 ^^ 50) ?s) - 180 = (0.82::real) ^ 50 * (- 90)"
    unfolding smooth_error_funpow f by simp
  then have "\<bar>smooth_pan ((update_from_angles 180 90 ^^ 50) ?s) - 180\<bar> = (0.82::real) ^ 50 * 90"
    by simp
  with pow50_low show ?thesis by (simp add: in_domain_def f)
qed

text \<open>C3, amended. For every constant target and every starting smoothed angle in the
  configured domains, iterating the smoothing update multiplies the distance to the
  target by 0.82 at each tick; the smoothed pan and tilt are within 0.001 of the target
  after 61 ticks, and within 0.01 after 50 ticks.\<close>

theorem smoothing_converges:
  assumes "configured s" and "in_domain s (smooth_pan s) (smooth_tilt s)" and "in_domain s p t"
  shows "(\<forall>n. smooth_pan ((update_from_angles p t ^^ n) s) - p = 0.82 ^ n * (smooth_pan s - p)
            \<and> smooth_tilt ((update_from_angles p t ^^ n) s) - t = 0.82 ^ n * (smooth_tilt s - t))
       \<and> \<bar>smooth_pan ((update_from_angles p t ^^ 61) s) - p\<bar> \<le> 1 / 1000
       \<and> \<bar>smooth_tilt ((update_from_angles p t ^^ 61) s) - t\<bar> \<le> 1 / 1000
       \<and> \<bar>smooth_pan ((update_from_angles p t ^^ 50) s) - p\<bar> \<le> 1 / 100
       \<and> \<bar>smooth_tilt ((update_from_angles p t ^^ 50) s) - t\<bar> \<le> 1 / 100"
proof -
  have f: "1 - smooth_factor s = 0.82" using assms(1) by (simp add: configured_def)
  have dp: "\<bar>smooth_pan s - p\<bar> \<le> 180" and dt: "\<bar>smooth_tilt s - t\<bar> \<le> 180"
    using assms by (auto simp: configured_def in_domain_def)
  have e: "smooth_pan ((update_from_angles p t ^^ n) s) - p = 0.82 ^ n * (smooth_pan s - p)"
      "smooth_tilt ((update_from_angles p t ^^ n) s) - t = 0.82 ^ n * (smooth_tilt s - t)" for n
    by (simp_all add: smooth_error_funpow f)
  have p0: "(0::real) \<le> 0.82 ^ n" for n by simp
  show ?thesis
    unfolding e
    using shrink_bound [OF p0 dp pow61] shrink_bound [OF p0 dt pow61]
      shrink_bound [OF p0 dp pow50] shrink_bound [OF p0 dt pow50]
    by simp
qed

text \<open>A new display, smoothed at (90, 90), sent to the corner (180, 30).\<close>

theorem smoothing_converges_witness:
  "configured (init 640 320 None 0 0)
   \<and> in_domain (init 640 320 None 0 0) (smooth_pan (init 640 320 None 0 0)) (smooth_tilt (init 640 320 None 0 0))
   \<and> in_domain (init 640 320 None 0 0) 180 30
   \<and> \<bar>smooth_pan ((update_from_angles 180 30 ^^ 61) (init 640 320 None 0 0)) - 180\<bar> \<le> 1 / 1000
   \<and> \<bar>smooth_tilt ((update_from_angles 180 30 ^^ 61) (init 640 320 None 0 0)) - 30\<bar> \<le> 1 / 1000"
proof -
  let ?s = "init 640 320 None 0 0"
  have c: "configured ?s" by (simp add: configured_def init_def Let_def)
  have d: "in_domain ?s (smooth_pan ?s) (smooth_tilt ?s)" "in_domain ?s 180 30"
    by (simp_all add: in_domain_def init_def Let_def)
  from smoothing_converges [OF c d] c d show ?thesis by blast
qed

subsection \<open>The smoothed angles and the domains\<close>

text \<open>C7 as stated fails: the target is not clamped. One update of a new display with
  the pan target 10000 leaves the smoothed pan at 1873.8.\<close>

theorem smoothed_in_domain_counterexample:
  "\<not> smooth_pan (update_from_angles 10000 90 (init 640 320 None 0 0)) \<le> 180"
  by (simp add: smooth_update_from_angles) (simp add: init_def Let_def)

lemma pan_min_update [simp]: "pan_min (update_from_angles p t s) = pan_min s"
  and pan_max_update [simp]: "pan_max (update_from_angles p t s) = pan_max s"
  and tilt_min_update [simp]: "tilt_min (update_from_angles p t s) = tilt_min s"
  and tilt_max_update [simp]: "tilt_max (update_from_angles p t s) = tilt_max s"
  using settings_update_from_angles [of p t s] by (simp_all add: settings_def)

lemma convex_step:
  fixes lo hi x y f :: real
  assumes "0 \<le> f" "f \<le> 1" "lo \<le> x" "x \<le> hi" "lo \<le> y" "y \<le> hi"
  shows "lo \<le> x + (y - x) * f \<and> x + (y - x) * f \<le> hi"
proof -
  have eq: "x + (y - x) * f = (1 - f) * x + f * y" by (simp add: algebra_simps)
  have "(1 - f) * lo + f * lo \<le> (1 - f) * x + f * y"
    using assms by (intro add_mono mult_left_mono) simp_all
  moreover have "(1 - f) * x + f * y \<le> (1 - f) * hi + f * hi"
    using assms by (intro add_mono mult_left_mono) simp_all
  ultimately show ?thesis unfolding eq by (simp add: algebra_simps)
qed

lemma update_keeps_domain:
  assumes "configured s" and "in_domain s (smooth_pan s) (smooth_tilt s)" and "in_domain s p t"
  shows "configured (update_from_angles p t s)
       \<and> in_domain (update_from_angles p t s)
            (smooth_pan (update_from_angles p t s)) (smooth_tilt (update_from_angles p t s))"
proof -
  have f: "0 \<le> smooth_factor s" "smooth_factor s \<le> 1" using assms(1) by (simp_all add: configured_def)
  show ?thesis
    using assms convex_step [OF f, of "pan_min s" "smooth_pan s" "pan_max s" p]
      convex_step [OF f, of "tilt_min s" "smooth_tilt s" "tilt_max s" t]
    by (simp add: configured_def in_domain_def smooth_update_from_angles)
qed

lemma feed_keeps_domain:
  assumes "configured s" and "in_domain s (smooth_pan s) (smooth_tilt s)"
    and "list_all (\<lambda>(p, t). in_domain s p t) targets"
  shows "configured (feed targets s)
       \<and> in_domain (feed targets s) (smooth_pan (feed targets s)) (smooth_tilt (feed targets s))"
  using assms
proof (induction targets arbitrary: s)
  case Nil
  then show ?case by (simp add: feed_def)
next
  case (Cons x xs)
  obtain p t where x: "x = (p, t)" by (cases x)
  let ?s' = "update_from_angles p t s"
  from Cons.prems x have pt: "in_domain s p t" by simp
  have step: "configured ?s'" "in_domain ?s' (smooth_pan ?s') (smooth_tilt ?s')"
    using update_keeps_domain [OF Cons.prems(1,2) pt] by simp_all
  have same: "in_domain ?s' = in_domain s" by (simp add: in_domain_def fun_eq_iff)
  have "list_all (\<lambda>(p, t). in_domain ?s' p t) xs" using Cons.prems(3) by (simp add: same)
  from Cons.IH [OF step this] show ?case by (simp add: feed_def x)
qed

lemma list_all_take: "list_all P xs \<Longrightarrow> list_all P (take k xs)"
  by (induction xs arbitrary: k) (auto simp: take_Cons split: nat.splits)

text \<open>C7, amended. From smoothed angles inside the domains (as a new display has them),
  for every sequence of targets that are themselves inside the domains, after every
  smoothing update the smoothed pan lies within \<open>[0, 180]\<close> and the smoothed tilt within
  \<open>[30, 150]\<close>. (A target outside is not clamped: only the offset computed from the
  smoothed angles is.)\<close>

theorem smoothed_stays_in_domain:
  assumes "configured s" and "in_domain s (smooth_pan s) (smooth_tilt s)"
    and "list_all (\<lambda>(p, t). in_domain s p t) targets"
  shows "\<forall>k \<le> length targets.
           0 \<le> smooth_pan (feed (take k targets) s) \<and> smooth_pan (feed (take k targets) s) \<le> 180
         \<and> 30 \<le> smooth_tilt (feed (take k targets) s) \<and> smooth_tilt (feed (take k targets) s) \<le> 150"
proof (intro allI impI)
  fix k assume "k \<le> length targets"
  let ?s' = "feed (take k targets) s"
  have "list_all (\<lambda>(p, t). in_domain s p t) (take k targets)"
    using assms(3) by (rule list_all_take)
  from feed_keeps_domain [OF assms(1,2) this]
  have "configured ?s'" "in_domain ?s' (smooth_pan ?s') (smooth_tilt ?s')" by simp_all
  then show "0 \<le> smooth_pan ?s' \<and> smooth_pan ?s' \<le> 180
         \<and> 30 \<le> smooth_tilt ?s' \<and> smooth_tilt ?s' \<le> 150"
    by (simp add: configured_def in_domain_def)
qed

text \<open>A new display sent to one corner of the domain, then to the opposite one.\<close>

theorem smoothed_stays_in_domain_witness:
  "configured (init 640 320 None 0 0)
   \<and> in_domain (init 640 320 None 0 0) (smooth_pan (init 640 320 None 0 0)) (smooth_tilt (init 640 320 None 0 0))
   \<and> list_all (\<lambda>(p, t). in_domain (init 640 320 None 0 0) p t) [(180, 30), (0, 150)]
   \<and> 0 \<le> smooth_pan (feed [(180, 30), (0, 150)] (init 640 320 None 0 0))
   \<and> smooth_pan (feed [(180, 30), (0, 150)] (init 640 320 None 0 0)) \<le> 180
   \<and> 30 \<le> smooth_tilt (feed [(180, 30), (0, 150)] (init 640 320 None 0 0))
   \<and> smooth_tilt (feed [(180, 30), (0, 150)] (init 640 320 None 0 0)) \<le> 150"
proof -
  let ?s = "init 640 320 None 0 0"
  have c: "configured ?s" by (simp add: configured_def init_def Let_def)
  have d: "in_domain ?s (smooth_pan ?s) (smooth_tilt ?s)"
    by (simp add: in_domain_def init_def Let_def)
  have l: "list_all (\<lambda>(p, t). in_domain ?s p t) [(180, 30), (0, 150)]"
    by (simp add: in_domain_def init_def Let_def)
  from smoothed_stays_in_domain [OF c d l, rule_format, of 2] c d l show ?thesis by simp
qed

subsection \<open>The blink part of a tick\<close>

lemma blink_update_trigger:
  assumes "\<not> blinking s" and "next_blink_in s < t0 - last_blink s"
  shows "blink_update t0 r s = Inr (draw_blink 0 (s\<lparr> blinking := True, blink_start := Some t0 \<rparr>))"
  using assms by (simp add: blink_update_def Let_def)

lemma blink_update_mid:
  assumes "blinking s" and "blink_start s = Some b" and "now - b < 0.26"
  shows "blink_update now r s = Inr (draw_blink (blink_coverage (now - b)) s)"
  using assms by (simp add: blink_update_def Let_def blink_coverage_def)

lemma blink_update_finish:
  assumes "blinking s" and "blink_start s = Some b" and "0.26 \<le> now - b"
  shows "blink_update now r s =
     Inr ((clear_blink (s\<lparr> blinking := False \<rparr>))\<lparr> last_blink := now, next_blink_in := uniform 3 12 r \<rparr>)"
  using assms by (simp add: blink_update_def Let_def)

lemma draw_blink_fields [simp]:
  "blinking (draw_blink p s) = blinking s"
  "blink_start (draw_blink p s) = blink_start s"
  by (simp_all add: draw_blink_def)

lemma blink_coverage_facts:
  "blink_coverage 0 = 0"
  "0.08 \<le> e \<Longrightarrow> e < 0.18 \<Longrightarrow> blink_coverage e = 1"
  "0 \<le> e \<Longrightarrow> e \<le> e' \<Longrightarrow> e' < 0.08 \<Longrightarrow> blink_coverage e \<le> blink_coverage e'"
  "0.18 \<le> e \<Longrightarrow> e \<le> e' \<Longrightarrow> e' < 0.26 \<Longrightarrow> blink_coverage e' \<le> blink_coverage e"
  by (simp_all add: blink_coverage_def min_def max_def divide_right_mono)

subsection \<open>Ticks without live angles\<close>

lemma read_angles_no_live:
  assumes "no_live_angles (pan_tilt s)"
  shows "\<exists>p t. read_angles s = Inr (p, t) \<and> (p = PyNone \<or> t = PyNone)"
proof (cases "pan_tilt s")
  case None
  then show ?thesis by (simp add: read_angles_def)
next
  case (Some pt)
  with assms show ?thesis
    by (cases "angle_pan pt"; cases "angle_tilt pt")
       (auto simp: read_angles_def no_live_angles_def)
qed

lemma blink_update_ok:
  assumes "blink_attr_ok s"
  shows "\<exists>s2. blink_update now r s = Inr s2"
  using assms
  by (cases "blink_start s") (auto simp: blink_update_def blink_attr_ok_def Let_def split: if_splits)

lemma pan_tilt_blink_update: "blink_update now r s = Inr s2 \<Longrightarrow> pan_tilt s2 = pan_tilt s"
  by (auto simp: blink_update_def Let_def draw_blink_def clear_blink_def
        split: if_splits option.splits)

text \<open>C5 as stated fails: \<^verbatim>\<open>_loop\<close> catches nothing. A pan that is not a number leaves
  the tick with \<^verbatim>\<open>TypeError\<close>, and an attribute access that raises leaves it with that
  exception.\<close>

theorem tick_falls_back_counterexample:
  "snd (loop 1 0 (fst (start 60 (init 640 320
        (Some \<lparr> angle_pan = Attr PyOther, angle_tilt = Attr (PyNum 90) \<rparr>) 0 0)))) = Inl TypeError
   \<and> snd (loop 1 0 (fst (start 60 (init 640 320
        (Some \<lparr> angle_pan = AttrRaises, angle_tilt = Attr (PyNum 90) \<rparr>) 0 0)))) = Inl SourceError"
  by (simp add: loop_def start_def init_def Let_def blink_update_def read_angles_def uniform_def)

text \<open>C5, amended. On every tick of a running display: if the angle source is absent, or
  reading its two attributes raises nothing but \<^verbatim>\<open>AttributeError\<close> and the pan or the
  tilt is missing or \<^verbatim>\<open>None\<close>, the tick moves the pupils by the idle offsets, schedules
  the next tick and raises nothing.\<close>

theorem tick_falls_back:
  assumes "running s" and "blink_attr_ok s" and "no_live_angles (pan_tilt s)"
  shows "\<exists>s2. blink_update now r s = Inr s2
     \<and> loop now r s = (apply_offsets (idle_offsets (now + idle_phase s2)) s2, Inr [interval_ms s2])"
proof -
  from blink_update_ok [OF assms(2)] obtain s2 where s2: "blink_update now r s = Inr s2" by blast
  then have "no_live_angles (pan_tilt s2)" using assms(3) by (simp add: pan_tilt_blink_update)
  from read_angles_no_live [OF this] obtain p t
    where pt: "read_angles s2 = Inr (p, t)" "p = PyNone \<or> t = PyNone" by blast
  have "interval_ms (apply_offsets d s2) = interval_ms s2" for d
    by (simp add: apply_offsets_def Let_def)
  with assms(1) s2 pt show ?thesis by (auto simp: loop_def Let_def)
qed

text \<open>A source with a pan and no tilt attribute.\<close>

theorem tick_falls_back_witness:
  "running (fst (start 60 (init 640 320 (Some \<lparr> angle_pan = Attr (PyNum 90), angle_tilt = NoAttr \<rparr>) 0 0)))
   \<and> blink_attr_ok (fst (start 60 (init 640 320 (Some \<lparr> angle_pan = Attr (PyNum 90), angle_tilt = NoAttr \<rparr>) 0 0)))
   \<and> no_live_angles (pan_tilt (fst (start 60 (init 640 320 (Some \<lparr> angle_pan = Attr (PyNum 90), angle_tilt = NoAttr \<rparr>) 0 0))))
   \<and> snd (loop 1 0 (fst (start 60 (init 640 320 (Some \<lparr> angle_pan = Attr (PyNum 90), angle_tilt = NoAttr \<rparr>) 0 0)))) = Inr [60]
   \<and> left_pupil (fst (loop 1 0 (fst (start 60 (init 640 320 (Some \<lparr> angle_pan = Attr (PyNum 90), angle_tilt = NoAttr \<rparr>) 0 0)))))
       = (real_of_int (fst (left_center (init 640 320 None 0 0))) + fst (idle_offsets 1) - 20,
          real_of_int (snd (left_center (init 640 320 None 0 0))) + snd (idle_offsets 1) - 20,
          real_of_int (fst (left_center (init 640 320 None 0 0))) + fst (idle_offsets 1) + 20,
          real_of_int (snd (left_center (init 640 320 None 0 0))) + snd (idle_offsets 1) + 20)"
proof -
  let ?s = "fst (start 60 (init 640 320 (Some \<lparr> angle_pan = Attr (PyNum 90), angle_tilt = NoAttr \<rparr>) 0 0))"
  have h: "running ?s" "blink_attr_ok ?s" "no_live_angles (pan_tilt ?s)"
    by (simp_all add: start_def init_def Let_def blink_attr_ok_def no_live_angles_def)
  have b: "blink_update 1 0 ?s = Inr ?s"
    by (simp add: blink_update_def start_def init_def Let_def uniform_def)
  from tick_falls_back [OF h, of 1 0] b
  have l: "loop 1 0 ?s = (apply_offsets (idle_offsets (1 + idle_phase ?s)) ?s, Inr [interval_ms ?s])"
    by simp
  have pr: "pupil_radius ?s = 20" "idle_phase ?s = 0" "interval_ms ?s = 60"
    "left_center ?s = left_center (init 640 320 None 0 0)"
    by (simp_all add: start_def init_def Let_def py_int_def)
  show ?thesis using h unfolding l by (simp add: apply_offsets_def Let_def pr)
qed

subsection \<open>What a tick leaves behind\<close>

text \<open>The blink attributes stay consistent on every history of a display, and the part of
  a tick after the blink touches neither the blink attributes nor the lids.\<close>

lemma blink_attr_ok_blink_update:
  "blink_update now r s = Inr s2 \<Longrightarrow> blink_attr_ok s2"
  by (auto simp: blink_update_def blink_attr_ok_def Let_def draw_blink_def clear_blink_def
        split: if_splits option.splits)

lemma blink_fields_apply_offsets [simp]:
  "blinking (apply_offsets d s) = blinking s" "blink_start (apply_offsets d s) = blink_start s"
  by (simp_all add: apply_offsets_def Let_def)

lemma blink_fields_update_from_angles [simp]:
  "blinking (update_from_angles p t s) = blinking s"
  "blink_start (update_from_angles p t s) = blink_start s"
  by (simp_all add: update_from_angles_def Let_def)

lemma blink_fields_update_from_values [simp]:
  "blinking (fst (update_from_values p t s)) = blinking s"
  "blink_start (fst (update_from_values p t s)) = blink_start s"
  by (cases "(p, t, s)" rule: update_from_values.cases; simp)+

lemma loop_cases:
  assumes "running s" and "blink_update now r s = Inr s2"
  shows "fst (loop now r s) = s2
       \<or> (\<exists>p t. fst (loop now r s) = fst (update_from_values p t s2))
       \<or> (\<exists>d. fst (loop now r s) = apply_offsets d s2)"
proof (cases "read_angles s2")
  case (Inl e)
  with assms show ?thesis by (simp add: loop_def)
next
  case (Inr pt)
  obtain p t where pt: "pt = (p, t)" by (cases pt)
  show ?thesis
  proof (cases "p \<noteq> PyNone \<and> t \<noteq> PyNone")
    case True
    obtain s3 e where u: "update_from_values p t s2 = (s3, e)"
      by (cases "update_from_values p t s2")
    with assms Inr pt True have "fst (loop now r s) = s3"
      by (cases e) (simp_all add: loop_def)
    with u have "fst (loop now r s) = fst (update_from_values p t s2)" by simp
    then show ?thesis by blast
  next
    case False
    with assms Inr pt
    have "fst (loop now r s) = apply_offsets (idle_offsets (now + idle_phase s2)) s2"
      by (auto simp: loop_def Let_def)
    then show ?thesis by blast
  qed
qed

lemma loop_idle_cases:
  assumes "\<not> running s \<or> blink_update now r s = Inl e"
  shows "fst (loop now r s) = s"
  using assms by (auto simp: loop_def)

lemma blink_attr_ok_loop: "blink_attr_ok s \<Longrightarrow> blink_attr_ok (fst (loop now r s))"
proof (cases "running s")
  case False
  assume "blink_attr_ok s"
  with False show ?thesis by (simp add: loop_def)
next
  case True
  assume ok: "blink_attr_ok s"
  from blink_update_ok [OF ok] obtain s2 where s2: "blink_update now r s = Inr s2" by blast
  then have ok2: "blink_attr_ok s2" by (rule blink_attr_ok_blink_update)
  have u: "blink_attr_ok (fst (update_from_values p t s2))" for p t
    using ok2 by (simp add: blink_attr_ok_def)
  have a: "blink_attr_ok (apply_offsets d s2)" for d
    using ok2 by (simp add: blink_attr_ok_def)
  from loop_cases [OF True s2] ok2 u a show ?thesis by auto
qed

lemma blink_attr_ok_exec: "blink_attr_ok s \<Longrightarrow> blink_attr_ok (exec e s)"
  by (cases e) (simp_all add: blink_attr_ok_loop, simp_all add: blink_attr_ok_def start_def stop_def)

lemma blink_attr_ok_run: "blink_attr_ok s \<Longrightarrow> blink_attr_ok (run es s)"
  unfolding run_def by (induction es arbitrary: s) (simp_all add: blink_attr_ok_exec)

lemma blink_attr_ok_init: "blink_attr_ok (run es (init w h pt now r))"
  by (rule blink_attr_ok_run) (simp add: blink_attr_ok_def init_def Let_def)

lemma loop_blink_part:
  assumes "running s" and "blink_update now r s = Inr s2"
  shows "blinking (fst (loop now r s)) = blinking s2
       \<and> blink_start (fst (loop now r s)) = blink_start s2
       \<and> left_lid (fst (loop now r s)) = left_lid s2
       \<and> right_lid (fst (loop now r s)) = right_lid s2
       \<and> last_blink (fst (loop now r s)) = last_blink s2
       \<and> next_blink_in (fst (loop now r s)) = next_blink_in s2"
proof -
  have v: "blinking (fst (update_from_values p t s2)) = blinking s2
       \<and> blink_start (fst (update_from_values p t s2)) = blink_start s2
       \<and> left_lid (fst (update_from_values p t s2)) = left_lid s2
       \<and> right_lid (fst (update_from_values p t s2)) = right_lid s2
       \<and> last_blink (fst (update_from_values p t s2)) = last_blink s2
       \<and> next_blink_in (fst (update_from_values p t s2)) = next_blink_in s2" for p t
    by (cases "(p, t, s2)" rule: update_from_values.cases)
       (simp_all add: update_from_angles_def apply_offsets_def Let_def)
  have o: "blinking (apply_offsets d s2) = blinking s2
       \<and> blink_start (apply_offsets d s2) = blink_start s2
       \<and> left_lid (apply_offsets d s2) = left_lid s2
       \<and> right_lid (apply_offsets d s2) = right_lid s2
       \<and> last_blink (apply_offsets d s2) = last_blink s2
       \<and> next_blink_in (apply_offsets d s2) = next_blink_in s2" for d
    by (simp add: apply_offsets_def Let_def)
  from loop_cases [OF assms] show ?thesis
  proof (elim disjE exE)
    assume "fst (loop now r s) = s2"
    then show ?thesis by simp
  next
    fix p t assume "fst (loop now r s) = fst (update_from_values p t s2)"
    with v [of p t] show ?thesis by simp
  next
    fix d assume "fst (loop now r s) = apply_offsets d s2"
    with o [of d] show ?thesis by simp
  qed
qed

subsection \<open>The blink cycle, tick by tick\<close>

lemma frame_apply_offsets: "frame (apply_offsets d s) = frame s"
  by (simp add: frame_def apply_offsets_def Let_def)

lemma frame_update_from_values: "frame (fst (update_from_values p t s)) = frame s"
  by (cases "(p, t, s)" rule: update_from_values.cases)
     (simp_all add: frame_def update_from_angles_def apply_offsets_def Let_def)

lemma frame_blink_update: "blink_update now r s = Inr s2 \<Longrightarrow> frame s2 = frame s"
  by (auto simp: blink_update_def Let_def draw_blink_def clear_blink_def frame_def
        split: if_splits option.splits)

lemma frame_loop: "frame (fst (loop now r s)) = frame s"
proof (cases "running s")
  case False
  then show ?thesis by (simp add: loop_def)
next
  case True
  show ?thesis
  proof (cases "blink_update now r s")
    case (Inl e)
    with True show ?thesis by (simp add: loop_def)
  next
    case (Inr s2)
    from loop_cases [OF True Inr] frame_blink_update [OF Inr]
    show ?thesis
      by (auto simp: frame_update_from_values frame_apply_offsets)
  qed
qed

text \<open>The three kinds of tick: the one that starts the blink, one during it, the one
  that ends it.\<close>

lemma tick_trigger:
  assumes "running s" and "\<not> blinking s" and "next_blink_in s < t0 - last_blink s"
  shows "mid_blink t0 (fst (loop t0 r s))"
    and "left_lid (fst (loop t0 r s)) = lid_rect (eye_radius s) (left_center s) 0"
    and "right_lid (fst (loop t0 r s)) = lid_rect (eye_radius s) (right_center s) 0"
proof -
  let ?s2 = "draw_blink 0 (s\<lparr> blinking := True, blink_start := Some t0 \<rparr>)"
  have b: "blink_update t0 r s = Inr ?s2" using assms(2,3) by (rule blink_update_trigger)
  note p = loop_blink_part [OF assms(1) b]
  from p show "mid_blink t0 (fst (loop t0 r s))" by (simp add: mid_blink_def)
  from p show "left_lid (fst (loop t0 r s)) = lid_rect (eye_radius s) (left_center s) 0"
    by (simp add: draw_blink_def)
  from p show "right_lid (fst (loop t0 r s)) = lid_rect (eye_radius s) (right_center s) 0"
    by (simp add: draw_blink_def)
qed

lemma tick_mid:
  assumes "running s" and "mid_blink t0 s" and "t - t0 < 0.26"
  shows "mid_blink t0 (fst (loop t r s))"
    and "left_lid (fst (loop t r s)) = lid_rect (eye_radius s) (left_center s) (blink_coverage (t - t0))"
    and "right_lid (fst (loop t r s)) = lid_rect (eye_radius s) (right_center s) (blink_coverage (t - t0))"
proof -
  let ?s2 = "draw_blink (blink_coverage (t - t0)) s"
  have b: "blink_update t r s = Inr ?s2"
    using assms(2,3) by (simp add: mid_blink_def blink_update_mid)
  note p = loop_blink_part [OF assms(1) b]
  from p assms(2) show "mid_blink t0 (fst (loop t r s))" by (simp add: mid_blink_def)
  from p show "left_lid (fst (loop t r s)) = lid_rect (eye_radius s) (left_center s) (blink_coverage (t - t0))"
    by (simp add: draw_blink_def)
  from p show "right_lid (fst (loop t r s)) = lid_rect (eye_radius s) (right_center s) (blink_coverage (t - t0))"
    by (simp add: draw_blink_def)
qed

lemma tick_finish:
  assumes "running s" and "mid_blink t0 s" and "0.26 \<le> t - t0"
  shows "\<not> blinking (fst (loop t r s))"
    and "left_lid (fst (loop t r s)) = (0, 0, 0, 0)"
    and "right_lid (fst (loop t r s)) = (0, 0, 0, 0)"
    and "last_blink (fst (loop t r s)) = t"
    and "next_blink_in (fst (loop t r s)) = uniform 3 12 r"
proof -
  let ?s2 = "(clear_blink (s\<lparr> blinking := False \<rparr>))\<lparr> last_blink := t, next_blink_in := uniform 3 12 r \<rparr>"
  have b: "blink_update t r s = Inr ?s2"
    using assms(2,3) by (simp add: mid_blink_def blink_update_finish)
  note p = loop_blink_part [OF assms(1) b]
  from p show "\<not> blinking (fst (loop t r s))" "left_lid (fst (loop t r s)) = (0, 0, 0, 0)"
    "right_lid (fst (loop t r s)) = (0, 0, 0, 0)" "last_blink (fst (loop t r s)) = t"
    "next_blink_in (fst (loop t r s)) = uniform 3 12 r"
    by (simp_all add: clear_blink_def)
qed

text \<open>Where \<^verbatim>\<open>_draw_blink\<close> puts a lid, and how much of the eye it covers.\<close>

lemma lid_rect_over:
  assumes "0 \<le> R" and "0 \<le> p"
  shows "lid_rect R c p = lid_over (eye_box R c) (real_of_int \<lfloor>2 * R * p\<rfloor>)"
proof -
  have "0 \<le> R * 2 * p" using assms by simp
  then have "py_int (R * 2 * p) = \<lfloor>2 * R * p\<rfloor>" by (simp add: py_int_def mult.commute)
  then show ?thesis by (simp add: lid_rect_def lid_over_def eye_box_def Let_def)
qed

lemma covered_lid_over:
  assumes "0 < R" and "0 \<le> h" and "h \<le> 2 * R"
  shows "covered_fraction (eye_box R c) (lid_over (eye_box R c) h) = h / (2 * R)"
  using assms by (simp add: covered_fraction_def lid_over_def eye_box_def max_def min_def)

lemma covered_cleared:
  assumes "0 < R"
  shows "covered_fraction (eye_box R c) (0, 0, 0, 0) = 0"
  using assms by (auto simp: covered_fraction_def eye_box_def)

lemma blink_coverage_range:
  assumes "0 \<le> e" and "e < 0.26"
  shows "0 \<le> blink_coverage e" and "blink_coverage e \<le> 1"
  using assms by (simp_all add: blink_coverage_def min_def max_def)

lemma lid_pixels_coverage:
  assumes "0 \<le> e" and "e < 0.26"
  shows "\<lfloor>2 * R * blink_coverage e\<rfloor> = lid_pixels R e"
proof -
  consider "e < 0.08" | "0.08 \<le> e" "e < 0.18" | "0.18 \<le> e" by linarith
  then show ?thesis
  proof cases
    case 1
    then have c: "blink_coverage e = e / 0.08" and p: "lid_pixels R e = \<lfloor>2 * R * (e / 0.08)\<rfloor>"
      by (simp_all add: blink_coverage_def lid_pixels_def min_def)
    show ?thesis unfolding c p by (rule refl)
  next
    case 2
    then have c: "blink_coverage e = 1" and p: "lid_pixels R e = \<lfloor>2 * R\<rfloor>"
      by (simp_all add: blink_coverage_def lid_pixels_def)
    show ?thesis unfolding c p by simp
  next
    case 3
    with assms(2) have c: "blink_coverage e = 1 - (e - 0.18) / 0.08"
      and p: "lid_pixels R e = \<lfloor>2 * R * (1 - (e - 0.18) / 0.08)\<rfloor>"
      by (simp_all add: blink_coverage_def lid_pixels_def max_def)
    show ?thesis unfolding c p by (rule refl)
  qed
qed

lemma floor_fraction_bounds:
  fixes R p :: real
  assumes "0 < R" and "0 \<le> p" and "p \<le> 1"
  shows "0 \<le> real_of_int \<lfloor>2 * R * p\<rfloor>" and "real_of_int \<lfloor>2 * R * p\<rfloor> \<le> 2 * R"
proof -
  have a: "0 \<le> 2 * R * p" using assms by simp
  then show "0 \<le> real_of_int \<lfloor>2 * R * p\<rfloor>" by simp
  have "2 * R * p \<le> 2 * R * 1" using assms by (intro mult_left_mono) simp_all
  moreover have "real_of_int \<lfloor>2 * R * p\<rfloor> \<le> 2 * R * p" by (rule of_int_floor_le)
  ultimately show "real_of_int \<lfloor>2 * R * p\<rfloor> \<le> 2 * R" by linarith
qed

text \<open>What each tick of a blink leaves on the display.\<close>

lemma eyes_drawn_frame: "frame s' = frame s \<Longrightarrow> eyes_drawn s' = eyes_drawn s"
  by (simp add: frame_def eyes_drawn_def)

lemma phase_at_mid: "e < 0.26 \<Longrightarrow> mid_blink t0 s' \<Longrightarrow> t - t0 = e \<Longrightarrow> blink_state_at t s' = phase_at e"
  by (auto simp: blink_state_at_def phase_at_def mid_blink_def)

lemma seen_drawn:
  assumes ed: "eyes_drawn s" and fr: "frame s' = frame s" and mb: "mid_blink t0 s'"
    and e: "0 \<le> fst tk - t0" "fst tk - t0 < 0.26"
    and ll: "left_lid s' = lid_rect (eye_radius s) (left_center s) (blink_coverage (fst tk - t0))"
    and rl: "right_lid s' = lid_rect (eye_radius s) (right_center s) (blink_coverage (fst tk - t0))"
  shows "blink_seen t0 s tk s'"
proof -
  let ?R = "eye_radius s" and ?e = "fst tk - t0"
  let ?h = "real_of_int (lid_pixels ?R ?e)"
  have R: "0 < ?R" "0 \<le> ?R" using ed by (simp_all add: eyes_drawn_def)
  have lw: "left_white s = eye_box ?R (left_center s)" and rw: "right_white s = eye_box ?R (right_center s)"
    using ed by (simp_all add: eyes_drawn_def)
  have same: "left_white s' = left_white s" "right_white s' = right_white s"
    using fr by (simp_all add: frame_def)
  note c = blink_coverage_range [OF e]
  have px: "\<lfloor>2 * ?R * blink_coverage ?e\<rfloor> = lid_pixels ?R ?e" using e by (rule lid_pixels_coverage)
  have h: "0 \<le> ?h" "?h \<le> 2 * ?R"
    using floor_fraction_bounds [OF R(1) c] by (simp_all add: px)
  have l: "left_lid s' = lid_over (left_white s) ?h"
    using lid_rect_over [OF R(2) c(1), of "left_center s"] by (simp add: ll lw px)
  have r: "right_lid s' = lid_over (right_white s) ?h"
    using lid_rect_over [OF R(2) c(1), of "right_center s"] by (simp add: rl rw px)
  have lc: "left_coverage s' = ?h / (2 * ?R)"
    unfolding left_coverage_def same l lw by (rule covered_lid_over [OF R(1) h])
  have rc: "right_coverage s' = ?h / (2 * ?R)"
    unfolding right_coverage_def same r rw by (rule covered_lid_over [OF R(1) h])
  have ph: "blink_state_at (fst tk) s' = phase_at ?e"
    using e(2) mb by (rule phase_at_mid) simp
  show ?thesis
    unfolding blink_seen_def using fr ph e(2) mb l r lc rc by simp
qed

lemma seen_finished:
  assumes ed: "eyes_drawn s" and fr: "frame s' = frame s" and nb: "\<not> blinking s'"
    and e: "0.26 \<le> fst tk - t0"
    and ll: "left_lid s' = (0, 0, 0, 0)" and rl: "right_lid s' = (0, 0, 0, 0)"
    and lb: "last_blink s' = fst tk" and nx: "next_blink_in s' = uniform 3 12 (snd tk)"
  shows "blink_seen t0 s tk s'"
proof -
  let ?R = "eye_radius s"
  have R: "0 < ?R" using ed by (simp add: eyes_drawn_def)
  have lw: "left_white s = eye_box ?R (left_center s)" and rw: "right_white s = eye_box ?R (right_center s)"
    using ed by (simp_all add: eyes_drawn_def)
  have same: "left_white s' = left_white s" "right_white s' = right_white s"
    using fr by (simp_all add: frame_def)
  have lc: "left_coverage s' = 0"
    unfolding left_coverage_def same ll lw by (rule covered_cleared [OF R])
  have rc: "right_coverage s' = 0"
    unfolding right_coverage_def same rl rw by (rule covered_cleared [OF R])
  have ph: "blink_state_at (fst tk) s' = phase_at (fst tk - t0)"
    using nb e by (simp add: blink_state_at_def phase_at_def)
  show ?thesis
    unfolding blink_seen_def using fr ph e nb ll rl lc rc lb nx by simp
qed

lemma running_frame: "frame s' = frame s \<Longrightarrow> running s' = running s"
  by (simp add: frame_def)

lemma blink_seen_frame: "frame s1 = frame s \<Longrightarrow> blink_seen t0 s1 = blink_seen t0 s"
  by (simp add: blink_seen_def frame_def fun_eq_iff)

lemma seen_first:
  assumes "running s" and "\<not> blinking s" and "next_blink_in s < t0 - last_blink s"
    and "eyes_drawn s"
  shows "blink_seen t0 s (t0, r) (fst (loop t0 r s))" and "mid_blink t0 (fst (loop t0 r s))"
proof -
  note t = tick_trigger [OF assms(1-3), of r]
  have c0: "blink_coverage 0 = 0" by (rule blink_coverage_facts(1))
  show "mid_blink t0 (fst (loop t0 r s))" by (rule t(1))
  show "blink_seen t0 s (t0, r) (fst (loop t0 r s))"
    by (rule seen_drawn [OF assms(4) frame_loop t(1)]) (simp_all add: t c0)
qed

lemma seen_next:
  assumes "running s" and "mid_blink t0 s" and "eyes_drawn s" and "t0 \<le> fst tk"
  shows "blink_seen t0 s tk (fst (loop (fst tk) (snd tk) s))"
    and "fst tk < t0 + 0.26 \<Longrightarrow> mid_blink t0 (fst (loop (fst tk) (snd tk) s))"
proof -
  show "blink_seen t0 s tk (fst (loop (fst tk) (snd tk) s))"
  proof (cases "fst tk - t0 < 0.26")
    case True
    note m = tick_mid [OF assms(1,2) True, of "snd tk"]
    show ?thesis
      by (rule seen_drawn [OF assms(3) frame_loop m(1) _ True m(2,3)]) (use assms(4) in simp)
  next
    case False
    then have f: "0.26 \<le> fst tk - t0" by simp
    note m = tick_finish [OF assms(1,2) f, of "snd tk"]
    show ?thesis
      by (rule seen_finished [OF assms(3) frame_loop m(1) f m(2-5)])
  qed
  assume "fst tk < t0 + 0.26"
  then have "fst tk - t0 < 0.26" by simp
  from tick_mid(1) [OF assms(1,2) this] show "mid_blink t0 (fst (loop (fst tk) (snd tk) s))" .
qed

text \<open>Successive ticks: the one that starts the blink, those before 0.26 s, the one that
  ends it.\<close>

lemma length_after_ticks [simp]: "length (after_ticks tks s) = length tks"
  by (induction tks arbitrary: s) simp_all

lemma after_ticks_append:
  "after_ticks (xs @ ys) s = after_ticks xs s @ after_ticks ys (last (s # after_ticks xs s))"
  by (induction xs arbitrary: s) simp_all

lemma mid_trace:
  assumes "running s" and "mid_blink t0 s" and "eyes_drawn s"
    and "\<forall>tk \<in> set mids. t0 \<le> fst tk \<and> fst tk < t0 + 0.26"
  shows "list_all2 (blink_seen t0 s) mids (after_ticks mids s)
       \<and> running (last (s # after_ticks mids s))
       \<and> mid_blink t0 (last (s # after_ticks mids s))
       \<and> frame (last (s # after_ticks mids s)) = frame s"
  using assms
proof (induction mids arbitrary: s)
  case Nil
  then show ?case by simp
next
  case (Cons tk mids)
  let ?s1 = "fst (loop (fst tk) (snd tk) s)"
  from Cons.prems(4) have tk: "t0 \<le> fst tk" "fst tk < t0 + 0.26" by simp_all
  have fr: "frame ?s1 = frame s" by (rule frame_loop)
  have seen: "blink_seen t0 s tk ?s1" using Cons.prems(1-3) tk(1) by (rule seen_next(1))
  have mb: "mid_blink t0 ?s1" using Cons.prems(1-3) tk by (rule seen_next(2))
  have run: "running ?s1" using Cons.prems(1) by (simp only: running_frame [OF fr])
  have ed: "eyes_drawn ?s1" using Cons.prems(3) by (simp only: eyes_drawn_frame [OF fr])
  have rest: "\<forall>tk \<in> set mids. t0 \<le> fst tk \<and> fst tk < t0 + 0.26" using Cons.prems(4) by simp
  from Cons.IH [OF run mb ed rest] seen fr show ?case
    by (simp add: blink_seen_frame [OF fr])
qed

lemma blink_trace:
  assumes "running s" and "\<not> blinking s" and "next_blink_in s < t0 - last_blink s"
    and "eyes_drawn s"
    and "\<forall>tk \<in> set mids. t0 \<le> fst tk \<and> fst tk < t0 + 0.26"
    and "t0 + 0.26 \<le> tend"
  shows "list_all2 (blink_seen t0 s) ((t0, r0) # mids @ [(tend, rend)])
           (after_ticks ((t0, r0) # mids @ [(tend, rend)]) s)"
proof -
  let ?s0 = "fst (loop t0 r0 s)"
  let ?sm = "last (?s0 # after_ticks mids ?s0)"
  have fr0: "frame ?s0 = frame s" by (rule frame_loop)
  have seen0: "blink_seen t0 s (t0, r0) ?s0" and mb0: "mid_blink t0 ?s0"
    using assms(1-4) by (rule seen_first)+
  have run0: "running ?s0" using assms(1) by (simp only: running_frame [OF fr0])
  have ed0: "eyes_drawn ?s0" using assms(4) by (simp only: eyes_drawn_frame [OF fr0])
  from mid_trace [OF run0 mb0 ed0 assms(5)]
  have mids: "list_all2 (blink_seen t0 s) mids (after_ticks mids ?s0)"
    and runm: "running ?sm" and mbm: "mid_blink t0 ?sm" and frm: "frame ?sm = frame s"
    by (simp_all add: blink_seen_frame [OF fr0] fr0)
  have edm: "eyes_drawn ?sm" using assms(4) by (simp only: eyes_drawn_frame [OF frm])
  have "t0 \<le> fst (tend, rend)" using assms(6) by simp
  from seen_next(1) [OF runm mbm edm this]
  have last: "blink_seen t0 s (tend, rend) (fst (loop tend rend ?sm))"
    by (simp only: blink_seen_frame [OF frm] fst_conv snd_conv)
  have tr: "after_ticks ((t0, r0) # mids @ [(tend, rend)]) s =
      ?s0 # after_ticks mids ?s0 @ [fst (loop tend rend ?sm)]"
    by (simp add: after_ticks_append del: last.simps)
  show ?thesis
    unfolding tr using seen0 mids last by (simp add: list_all2_appendI del: last.simps)
qed

lemma blink_trace_nth:
  assumes "running s" and "\<not> blinking s" and "next_blink_in s < t0 - last_blink s"
    and "eyes_drawn s"
    and "\<forall>tk \<in> set mids. t0 \<le> fst tk \<and> fst tk < t0 + 0.26"
    and "t0 + 0.26 \<le> tend"
    and "tks = (t0, r0) # mids @ [(tend, rend)]"
    and "i < length tks"
  shows "blink_seen t0 s (tks ! i) (after_ticks tks s ! i)"
  using blink_trace [OF assms(1-6), of r0 rend] assms(7,8)
  by (simp only: list_all2_conv_all_nth)

lemma lid_pixels_start: "lid_pixels R 0 = 0"
  by (simp add: lid_pixels_def)

lemma lid_pixels_hold: "0.08 \<le> e \<Longrightarrow> e < 0.18 \<Longrightarrow> lid_pixels R e = \<lfloor>2 * R\<rfloor>"
  by (simp add: lid_pixels_def)

lemma lid_pixels_close_mono:
  assumes "0 < R" and "e \<le> e'" and "e' < 0.08"
  shows "lid_pixels R e \<le> lid_pixels R e'"
proof -
  have "e / 0.08 \<le> e' / 0.08" using assms(2) by (intro divide_right_mono) simp_all
  then have "2 * R * (e / 0.08) \<le> 2 * R * (e' / 0.08)"
    using assms(1) by (intro mult_left_mono) simp_all
  then have "\<lfloor>2 * R * (e / 0.08)\<rfloor> \<le> \<lfloor>2 * R * (e' / 0.08)\<rfloor>" by (rule floor_mono)
  moreover have "e < 0.08" using assms(2,3) by linarith
  ultimately show ?thesis using assms(3) by (simp only: lid_pixels_def if_True)
qed

lemma lid_pixels_open_mono:
  assumes "0 < R" and "0.18 \<le> e" and "e \<le> e'" and "e' < 0.26"
  shows "lid_pixels R e' \<le> lid_pixels R e"
proof -
  have "(e - 0.18) / 0.08 \<le> (e' - 0.18) / 0.08"
    using assms(3) by (intro divide_right_mono) simp_all
  then have "1 - (e' - 0.18) / 0.08 \<le> 1 - (e - 0.18) / 0.08" by linarith
  then have "2 * R * (1 - (e' - 0.18) / 0.08) \<le> 2 * R * (1 - (e - 0.18) / 0.08)"
    using assms(1) by (intro mult_left_mono) simp_all
  then have le: "\<lfloor>2 * R * (1 - (e' - 0.18) / 0.08)\<rfloor> \<le> \<lfloor>2 * R * (1 - (e - 0.18) / 0.08)\<rfloor>"
    by (rule floor_mono)
  have a: "\<not> e < 0.08" "\<not> e < 0.18" "\<not> e' < 0.08" "\<not> e' < 0.18"
    using assms(2,3) by simp_all
  show ?thesis using le by (simp only: lid_pixels_def a if_False)
qed

lemma whole_pixels_hold:
  fixes R :: real
  assumes "0 < R"
  shows "1 - 1 / (2 * R) < real_of_int \<lfloor>2 * R\<rfloor> / (2 * R)"
    and "real_of_int \<lfloor>2 * R\<rfloor> / (2 * R) \<le> 1"
    and "real_of_int \<lfloor>2 * R\<rfloor> / (2 * R) = 1 \<longleftrightarrow> real_of_int \<lfloor>2 * R\<rfloor> = 2 * R"
proof -
  have p: "0 < 2 * R" using assms by simp
  have lo: "2 * R - 1 < real_of_int \<lfloor>2 * R\<rfloor>" by linarith
  have hi: "real_of_int \<lfloor>2 * R\<rfloor> \<le> 2 * R" by (rule of_int_floor_le)
  have "(2 * R - 1) / (2 * R) < real_of_int \<lfloor>2 * R\<rfloor> / (2 * R)"
    using lo p by (rule divide_strict_right_mono)
  moreover have "(2 * R - 1) / (2 * R) = 1 - 1 / (2 * R)" using p by (simp add: field_simps)
  ultimately show "1 - 1 / (2 * R) < real_of_int \<lfloor>2 * R\<rfloor> / (2 * R)" by simp
  show "real_of_int \<lfloor>2 * R\<rfloor> / (2 * R) \<le> 1" using hi p by (simp add: field_simps)
  have "real_of_int \<lfloor>2 * R\<rfloor> / (2 * R) = 1 \<longleftrightarrow> real_of_int \<lfloor>2 * R\<rfloor> = 1 * (2 * R)"
    using p by (intro divide_eq_eq [THEN trans]) simp
  then show "real_of_int \<lfloor>2 * R\<rfloor> / (2 * R) = 1 \<longleftrightarrow> real_of_int \<lfloor>2 * R\<rfloor> = 2 * R"
    by (simp only: mult_1)
qed

lemma phase_rank_mono: "e \<le> e' \<Longrightarrow> blink_rank (phase_at e) \<le> blink_rank (phase_at e')"
  by (simp add: phase_at_def)

lemma spaced_sorted: "spaced g xs \<Longrightarrow> sorted xs"
  by (induction g xs rule: spaced.induct) auto

lemma spaced_crossing:
  assumes "spaced g (x # xs)" and "x < a" and "a \<le> last (x # xs)"
  shows "\<exists>y \<in> set xs. a \<le> y \<and> y < a + g"
  using assms
proof (induction xs arbitrary: x)
  case Nil
  then show ?case by simp
next
  case (Cons y ys)
  show ?case
  proof (cases "a \<le> y")
    case True
    with Cons.prems(1,2) have "y < a + g" by simp
    with True show ?thesis by auto
  next
    case False
    with Cons.prems have "spaced g (y # ys)" "y < a" "a \<le> last (y # ys)" by simp_all
    from Cons.IH [OF this] show ?thesis by auto
  qed
qed

lemma eyes_drawn_exec: "eyes_drawn (exec e s) = eyes_drawn s"
proof (cases e)
  case (Tick now r)
  then show ?thesis by (simp add: eyes_drawn_frame [OF frame_loop])
qed (simp_all add: eyes_drawn_def start_def stop_def update_from_angles_def apply_offsets_def Let_def)

lemma eyes_drawn_run: "eyes_drawn (run es s) = eyes_drawn s"
  unfolding run_def by (induction es arbitrary: s) (simp_all add: eyes_drawn_exec)

lemma init_eyes_drawn: "0 < min w h \<Longrightarrow> eyes_drawn (init w h pt now r)"
  by (simp add: eyes_drawn_def eye_box_def init_def Let_def)

text \<open>C4, amended. On a running display with its eyes drawn, open, with the time since
  the last blink past the threshold: the tick at \<open>t0\<close> starts a blink, and each tick of
  it, at \<open>t\<close>, is in the state its elapsed time \<open>e = t - t0\<close> selects: Closing before
  0.08 s, Closed before 0.18 s, Opening before 0.26 s, Open from then on, with the lids
  cleared, the timer reset and the interval redrawn. So successive ticks meet the states in
  the order Closing, Closed, Opening, Open, and meet all four when they are at most 0.08 s
  apart. Before 0.26 s the lid of each eye spans the eye from its top edge down
  \<open>lid_pixels\<close> whole pixels, and the eyelid coverage is that height over the height
  of the eye: 0 at the start and at the end; during the hold the whole pixels of the
  eye's height over that height, which is above \<open>1 - 1 / (2 * eye_radius)\<close>, at most 1,
  and 1 exactly when the eye's height is a whole number of pixels; non-decreasing during
  the close phase and non-increasing during the open phase.\<close>

theorem blink_cycle:
  assumes "running s" and "\<not> blinking s" and "next_blink_in s < t0 - last_blink s"
    and "eyes_drawn s"
    and "\<forall>tk \<in> set mids. t0 \<le> fst tk \<and> fst tk < t0 + 0.26"
    and "t0 + 0.26 \<le> tend"
    and "tks = (t0, r0) # mids @ [(tend, rend)]"
    and "tr = after_ticks tks s"
  shows "length tr = length tks
    \<and> (\<forall>i < length tks.
          blink_state_at (fst (tks ! i)) (tr ! i) =
            (if fst (tks ! i) - t0 < 0.08 then Closing
             else if fst (tks ! i) - t0 < 0.18 then Closed
             else if fst (tks ! i) - t0 < 0.26 then Opening else Open)
        \<and> left_white (tr ! i) = left_white s \<and> right_white (tr ! i) = right_white s
        \<and> (fst (tks ! i) - t0 < 0.26 \<longrightarrow>
              left_lid (tr ! i) =
                lid_over (left_white s) (real_of_int (lid_pixels (eye_radius s) (fst (tks ! i) - t0)))
            \<and> right_lid (tr ! i) =
                lid_over (right_white s) (real_of_int (lid_pixels (eye_radius s) (fst (tks ! i) - t0)))
            \<and> left_coverage (tr ! i) =
                real_of_int (lid_pixels (eye_radius s) (fst (tks ! i) - t0)) / (2 * eye_radius s)
            \<and> right_coverage (tr ! i) = left_coverage (tr ! i))
        \<and> (0.26 \<le> fst (tks ! i) - t0 \<longrightarrow>
              \<not> blinking (tr ! i)
            \<and> left_lid (tr ! i) = (0, 0, 0, 0) \<and> right_lid (tr ! i) = (0, 0, 0, 0)
            \<and> left_coverage (tr ! i) = 0 \<and> right_coverage (tr ! i) = 0
            \<and> last_blink (tr ! i) = fst (tks ! i)
            \<and> next_blink_in (tr ! i) = uniform 3 12 (snd (tks ! i))))
    \<and> blink_state_at t0 (hd tr) = Closing
    \<and> left_coverage (hd tr) = 0 \<and> right_coverage (hd tr) = 0
    \<and> blink_state_at tend (last tr) = Open
    \<and> left_coverage (last tr) = 0 \<and> right_coverage (last tr) = 0
    \<and> (\<forall>i < length tks. 0.08 \<le> fst (tks ! i) - t0 \<and> fst (tks ! i) - t0 < 0.18 \<longrightarrow>
          left_coverage (tr ! i) = real_of_int \<lfloor>2 * eye_radius s\<rfloor> / (2 * eye_radius s)
        \<and> 1 - 1 / (2 * eye_radius s) < left_coverage (tr ! i)
        \<and> left_coverage (tr ! i) \<le> 1
        \<and> (left_coverage (tr ! i) = 1 \<longleftrightarrow> real_of_int \<lfloor>2 * eye_radius s\<rfloor> = 2 * eye_radius s))
    \<and> (\<forall>i j. i < length tks \<and> j < length tks \<and> fst (tks ! i) \<le> fst (tks ! j)
             \<and> fst (tks ! j) - t0 < 0.08 \<longrightarrow>
          left_coverage (tr ! i) \<le> left_coverage (tr ! j))
    \<and> (\<forall>i j. i < length tks \<and> j < length tks \<and> 0.18 \<le> fst (tks ! i) - t0
             \<and> fst (tks ! i) \<le> fst (tks ! j) \<and> fst (tks ! j) - t0 < 0.26 \<longrightarrow>
          left_coverage (tr ! j) \<le> left_coverage (tr ! i))
    \<and> (sorted (map fst tks) \<longrightarrow>
          (\<forall>i j. i \<le> j \<and> j < length tks \<longrightarrow>
             blink_rank (blink_state_at (fst (tks ! i)) (tr ! i))
               \<le> blink_rank (blink_state_at (fst (tks ! j)) (tr ! j))))
    \<and> (spaced 0.08 (map fst tks) \<longrightarrow>
          (\<exists>i < length tks. blink_state_at (fst (tks ! i)) (tr ! i) = Closed)
        \<and> (\<exists>j < length tks. blink_state_at (fst (tks ! j)) (tr ! j) = Opening))"
proof -
  let ?R = "eye_radius s"
  let ?e = "\<lambda>i. fst (tks ! i) - t0"
  let ?st = "\<lambda>i. blink_state_at (fst (tks ! i)) (tr ! i)"
  have R: "0 < ?R" using assms(4) by (simp add: eyes_drawn_def)
  have len: "length tr = length tks" by (simp add: assms(8))
  have n: "length tks = length mids + 2" by (simp add: assms(7))
  have seen: "blink_seen t0 s (tks ! i) (tr ! i)" if "i < length tks" for i
    unfolding assms(8) using assms(1-7) that by (rule blink_trace_nth)
  have e0: "0 \<le> ?e i" if "i < length tks" for i
  proof -
    have "tks ! i \<in> set tks" using that by simp
    then have "tks ! i = (t0, r0) \<or> tks ! i \<in> set mids \<or> tks ! i = (tend, rend)"
      by (auto simp: assms(7))
    then show ?thesis using assms(5,6) by auto
  qed
  have st: "?st i = phase_at (?e i)" if "i < length tks" for i
    using seen [OF that] by (simp add: blink_seen_def)
  have whites: "left_white (tr ! i) = left_white s \<and> right_white (tr ! i) = right_white s"
    if "i < length tks" for i
    using seen [OF that] by (simp add: blink_seen_def frame_def)
  have drawn: "left_lid (tr ! i) = lid_over (left_white s) (real_of_int (lid_pixels ?R (?e i)))
            \<and> right_lid (tr ! i) = lid_over (right_white s) (real_of_int (lid_pixels ?R (?e i)))
            \<and> left_coverage (tr ! i) = real_of_int (lid_pixels ?R (?e i)) / (2 * ?R)
            \<and> right_coverage (tr ! i) = left_coverage (tr ! i)"
    if "i < length tks" "?e i < 0.26" for i
    using seen [OF that(1)] that(2) by (simp add: blink_seen_def)
  have cleared: "\<not> blinking (tr ! i)
            \<and> left_lid (tr ! i) = (0, 0, 0, 0) \<and> right_lid (tr ! i) = (0, 0, 0, 0)
            \<and> left_coverage (tr ! i) = 0 \<and> right_coverage (tr ! i) = 0
            \<and> last_blink (tr ! i) = fst (tks ! i)
            \<and> next_blink_in (tr ! i) = uniform 3 12 (snd (tks ! i))"
    if "i < length tks" "0.26 \<le> ?e i" for i
    using seen [OF that(1)] that(2) by (simp add: blink_seen_def)
  have per_tick: "\<forall>i < length tks.
          ?st i = (if ?e i < 0.08 then Closing else if ?e i < 0.18 then Closed
                   else if ?e i < 0.26 then Opening else Open)
        \<and> left_white (tr ! i) = left_white s \<and> right_white (tr ! i) = right_white s
        \<and> (?e i < 0.26 \<longrightarrow>
              left_lid (tr ! i) = lid_over (left_white s) (real_of_int (lid_pixels ?R (?e i)))
            \<and> right_lid (tr ! i) = lid_over (right_white s) (real_of_int (lid_pixels ?R (?e i)))
            \<and> left_coverage (tr ! i) = real_of_int (lid_pixels ?R (?e i)) / (2 * ?R)
            \<and> right_coverage (tr ! i) = left_coverage (tr ! i))
        \<and> (0.26 \<le> ?e i \<longrightarrow>
              \<not> blinking (tr ! i)
            \<and> left_lid (tr ! i) = (0, 0, 0, 0) \<and> right_lid (tr ! i) = (0, 0, 0, 0)
            \<and> left_coverage (tr ! i) = 0 \<and> right_coverage (tr ! i) = 0
            \<and> last_blink (tr ! i) = fst (tks ! i)
            \<and> next_blink_in (tr ! i) = uniform 3 12 (snd (tks ! i)))"
    using st whites drawn cleared by (simp add: phase_at_def)
  \<comment> \<open>the first and the last tick\<close>
  have ne: "tr \<noteq> []" "tks \<noteq> []" using len n by auto
  have i0: "0 < length tks" using n by simp
  have first: "tks ! 0 = (t0, r0)" by (simp add: assms(7))
  have hd_tr: "hd tr = tr ! 0" using ne(1) by (rule hd_conv_nth)
  have start: "blink_state_at t0 (hd tr) = Closing \<and> left_coverage (hd tr) = 0
      \<and> right_coverage (hd tr) = 0"
    using st [OF i0] drawn [OF i0] R
    by (simp add: first hd_tr phase_at_def lid_pixels_start)
  define k where "k = length tks - 1"
  have il: "k < length tks" using n by (simp add: k_def)
  have lastk: "tks ! k = (tend, rend)"
    by (simp add: assms(7) nth_append k_def)
  have last_tr: "last tr = tr ! k" using ne(1) len by (simp add: last_conv_nth k_def)
  have tk: "fst (tks ! k) = tend" by (simp only: lastk fst_conv)
  then have el: "0.26 \<le> ?e k" using assms(6) by linarith
  have "?st k = Open" using st [OF il] el by (simp add: phase_at_def)
  then have "blink_state_at tend (last tr) = Open" by (simp only: tk last_tr)
  moreover have "left_coverage (last tr) = 0 \<and> right_coverage (last tr) = 0"
    using cleared [OF il el] by (simp only: last_tr)
  ultimately have finish: "blink_state_at tend (last tr) = Open \<and> left_coverage (last tr) = 0
      \<and> right_coverage (last tr) = 0" by simp
  \<comment> \<open>the hold\<close>
  have hold: "\<forall>i < length tks. 0.08 \<le> ?e i \<and> ?e i < 0.18 \<longrightarrow>
          left_coverage (tr ! i) = real_of_int \<lfloor>2 * ?R\<rfloor> / (2 * ?R)
        \<and> 1 - 1 / (2 * ?R) < left_coverage (tr ! i)
        \<and> left_coverage (tr ! i) \<le> 1
        \<and> (left_coverage (tr ! i) = 1 \<longleftrightarrow> real_of_int \<lfloor>2 * ?R\<rfloor> = 2 * ?R)"
  proof (intro allI impI)
    fix i assume i: "i < length tks" and h: "0.08 \<le> ?e i \<and> ?e i < 0.18"
    then have "?e i < 0.26" by simp
    from drawn [OF i this] h
    have c: "left_coverage (tr ! i) = real_of_int \<lfloor>2 * ?R\<rfloor> / (2 * ?R)"
      by (simp add: lid_pixels_hold)
    show "left_coverage (tr ! i) = real_of_int \<lfloor>2 * ?R\<rfloor> / (2 * ?R)
        \<and> 1 - 1 / (2 * ?R) < left_coverage (tr ! i)
        \<and> left_coverage (tr ! i) \<le> 1
        \<and> (left_coverage (tr ! i) = 1 \<longleftrightarrow> real_of_int \<lfloor>2 * ?R\<rfloor> = 2 * ?R)"
      unfolding c using whole_pixels_hold [OF R] by simp
  qed
  \<comment> \<open>closing and opening\<close>
  have p2: "0 \<le> 2 * ?R" using R by simp
  have closes: "\<forall>i j. i < length tks \<and> j < length tks \<and> fst (tks ! i) \<le> fst (tks ! j)
             \<and> ?e j < 0.08 \<longrightarrow> left_coverage (tr ! i) \<le> left_coverage (tr ! j)"
  proof (intro allI impI)
    fix i j
    assume a: "i < length tks \<and> j < length tks \<and> fst (tks ! i) \<le> fst (tks ! j) \<and> ?e j < 0.08"
    then have le: "?e i \<le> ?e j" and ei: "?e i < 0.26" and ej: "?e j < 0.26" by simp_all
    have "real_of_int (lid_pixels ?R (?e i)) \<le> real_of_int (lid_pixels ?R (?e j))"
      using lid_pixels_close_mono [OF R le] a by simp
    then have "real_of_int (lid_pixels ?R (?e i)) / (2 * ?R)
        \<le> real_of_int (lid_pixels ?R (?e j)) / (2 * ?R)"
      using p2 by (rule divide_right_mono)
    with drawn [of i] drawn [of j] a ei ej
    show "left_coverage (tr ! i) \<le> left_coverage (tr ! j)" by simp
  qed
  have opens: "\<forall>i j. i < length tks \<and> j < length tks \<and> 0.18 \<le> ?e i
             \<and> fst (tks ! i) \<le> fst (tks ! j) \<and> ?e j < 0.26 \<longrightarrow>
          left_coverage (tr ! j) \<le> left_coverage (tr ! i)"
  proof (intro allI impI)
    fix i j
    assume a: "i < length tks \<and> j < length tks \<and> 0.18 \<le> ?e i
             \<and> fst (tks ! i) \<le> fst (tks ! j) \<and> ?e j < 0.26"
    then have le: "?e i \<le> ?e j" and ei: "?e i < 0.26" and ej: "?e j < 0.26" by simp_all
    have "real_of_int (lid_pixels ?R (?e j)) \<le> real_of_int (lid_pixels ?R (?e i))"
      using lid_pixels_open_mono [OF R _ le] a by simp
    then have "real_of_int (lid_pixels ?R (?e j)) / (2 * ?R)
        \<le> real_of_int (lid_pixels ?R (?e i)) / (2 * ?R)"
      using p2 by (rule divide_right_mono)
    with drawn [of i] drawn [of j] a ei ej
    show "left_coverage (tr ! j) \<le> left_coverage (tr ! i)" by simp
  qed
  \<comment> \<open>the order of the states\<close>
  have order: "sorted (map fst tks) \<longrightarrow>
          (\<forall>i j. i \<le> j \<and> j < length tks \<longrightarrow> blink_rank (?st i) \<le> blink_rank (?st j))"
  proof (intro allI impI)
    fix i j assume so: "sorted (map fst tks)" and ij: "i \<le> j \<and> j < length tks"
    then have "map fst tks ! i \<le> map fst tks ! j"
      by (intro sorted_nth_mono) simp_all
    then have "?e i \<le> ?e j" using ij by simp
    then have "blink_rank (phase_at (?e i)) \<le> blink_rank (phase_at (?e j))"
      by (rule phase_rank_mono)
    then show "blink_rank (?st i) \<le> blink_rank (?st j)" using ij by (simp add: st)
  qed
  \<comment> \<open>every state is met when the ticks are close enough\<close>
  have visit: "spaced 0.08 (map fst tks) \<longrightarrow>
          (\<exists>i < length tks. ?st i = Closed) \<and> (\<exists>j < length tks. ?st j = Opening)"
  proof
    assume sp: "spaced 0.08 (map fst tks)"
    have times: "map fst tks = t0 # (map fst mids @ [tend])" by (simp add: assms(7))
    have lastt: "last (t0 # (map fst mids @ [tend])) = tend" by simp
    have meet: "\<exists>i < length tks. a \<le> fst (tks ! i) \<and> fst (tks ! i) < a + 0.08"
      if "t0 < a" "a \<le> tend" for a
    proof -
      from spaced_crossing [of "0.08" t0 "map fst mids @ [tend]" a] sp that
      obtain y where y: "y \<in> set (map fst mids @ [tend])" "a \<le> y" "y < a + 0.08"
        unfolding times lastt by blast
      then have "y \<in> set (map fst tks)" by (simp add: times)
      then obtain i where "i < length tks" "fst (tks ! i) = y"
        by (auto simp: in_set_conv_nth)
      with y show ?thesis by auto
    qed
    from meet [of "t0 + 0.08"] assms(6) obtain i where i: "i < length tks"
      "t0 + 0.08 \<le> fst (tks ! i)" "fst (tks ! i) < t0 + 0.08 + 0.08" by auto
    then have "?st i = Closed" by (simp add: st phase_at_def)
    moreover
    from meet [of "t0 + 0.18"] assms(6) obtain j where j: "j < length tks"
      "t0 + 0.18 \<le> fst (tks ! j)" "fst (tks ! j) < t0 + 0.18 + 0.08" by auto
    then have "?st j = Opening" by (simp add: st phase_at_def)
    ultimately show "(\<exists>i < length tks. ?st i = Closed) \<and> (\<exists>j < length tks. ?st j = Opening)"
      using i(1) j(1) by blast
  qed
  show ?thesis
    using len per_tick start finish hold closes opens order visit by blast
qed

lemma dashboard_face_fields:
  "running (dashboard_face pt now r)" "\<not> blinking (dashboard_face pt now r)"
  "last_blink (dashboard_face pt now r) = now"
  "next_blink_in (dashboard_face pt now r) = uniform 3 10 r"
  "eye_radius (dashboard_face pt now r) = 57.6"
  "eyes_drawn (dashboard_face pt now r)"
  by (simp_all add: dashboard_face_def start_def init_def Let_def eyes_drawn_def eye_box_def)

lemma slow_face_fields:
  "running (fst (start 300 (init 640 320 pt now r)))"
  "\<not> blinking (fst (start 300 (init 640 320 pt now r)))"
  "last_blink (fst (start 300 (init 640 320 pt now r))) = now"
  "next_blink_in (fst (start 300 (init 640 320 pt now r))) = uniform 3 10 r"
  "eyes_drawn (fst (start 300 (init 640 320 pt now r)))"
  by (simp_all add: start_def init_def Let_def eyes_drawn_def eye_box_def)

text \<open>C4 as stated fails twice. A display started with a period of 300 ms is ticked at
  11 s and 11.3 s: Closing, then Open, and neither Closed nor Opening in between. And on
  the dashboard's display the hold draws the lid 115 pixels high on an eye 115.2 pixels
  high: the coverage is not 1.\<close>

theorem blink_cycle_counterexample:
  "running (fst (start 300 (init 640 320 None 0 0)))
   \<and> \<not> blinking (fst (start 300 (init 640 320 None 0 0)))
   \<and> next_blink_in (fst (start 300 (init 640 320 None 0 0)))
        < 11 - last_blink (fst (start 300 (init 640 320 None 0 0)))
   \<and> blink_state_at 11
        (after_ticks [(11, 0), (11.3, 0)] (fst (start 300 (init 640 320 None 0 0))) ! 0) = Closing
   \<and> blink_state_at 11.3
        (after_ticks [(11, 0), (11.3, 0)] (fst (start 300 (init 640 320 None 0 0))) ! 1) = Open
   \<and> blink_state_at 11.12
        (after_ticks [(11, 0), (11.12, 0), (11.3, 0)] (dashboard_face None 0 0) ! 1) = Closed
   \<and> left_coverage
        (after_ticks [(11, 0), (11.12, 0), (11.3, 0)] (dashboard_face None 0 0) ! 1) = 115 / 115.2
   \<and> left_coverage
        (after_ticks [(11, 0), (11.12, 0), (11.3, 0)] (dashboard_face None 0 0) ! 1) \<noteq> 1"
proof -
  let ?D = "fst (start 300 (init 640 320 None 0 0))"
  let ?F = "dashboard_face None 0 0"
  have d: "running ?D" "\<not> blinking ?D" "next_blink_in ?D < 11 - last_blink ?D" "eyes_drawn ?D"
    by (simp_all add: slow_face_fields uniform_def)
  have f: "running ?F" "\<not> blinking ?F" "next_blink_in ?F < 11 - last_blink ?F" "eyes_drawn ?F"
    by (simp_all add: dashboard_face_fields uniform_def)
  have m0: "\<forall>tk \<in> set ([] :: (real \<times> real) list). 11 \<le> fst tk \<and> fst tk < 11 + 0.26" by simp
  have m1: "\<forall>tk \<in> set [(11.12 :: real, 0 :: real)]. 11 \<le> fst tk \<and> fst tk < 11 + 0.26" by simp
  have fin: "(11 :: real) + 0.26 \<le> 11.3" by simp
  have a0: "blink_seen 11 ?D ([(11, 0), (11.3, 0)] ! 0) (after_ticks [(11, 0), (11.3, 0)] ?D ! 0)"
    by (rule blink_trace_nth [OF d m0 fin]) simp_all
  have a1: "blink_seen 11 ?D ([(11, 0), (11.3, 0)] ! 1) (after_ticks [(11, 0), (11.3, 0)] ?D ! 1)"
    by (rule blink_trace_nth [OF d m0 fin]) simp_all
  have b1: "blink_seen 11 ?F ([(11, 0), (11.12, 0), (11.3, 0)] ! 1)
      (after_ticks [(11, 0), (11.12, 0), (11.3, 0)] ?F ! 1)"
    by (rule blink_trace_nth [OF f m1 fin]) simp_all
  have s0: "blink_state_at 11 (after_ticks [(11, 0), (11.3, 0)] ?D ! 0) = Closing"
    using a0 by (simp add: blink_seen_def phase_at_def)
  have s1: "blink_state_at 11.3 (after_ticks [(11, 0), (11.3, 0)] ?D ! 1) = Open"
    using a1 by (simp add: blink_seen_def phase_at_def)
  have h1: "blink_state_at 11.12 (after_ticks [(11, 0), (11.12, 0), (11.3, 0)] ?F ! 1) = Closed"
    using b1 by (simp add: blink_seen_def phase_at_def)
  have c1: "left_coverage (after_ticks [(11, 0), (11.12, 0), (11.3, 0)] ?F ! 1) = 115 / 115.2"
    using b1 by (simp add: blink_seen_def lid_pixels_def dashboard_face_fields)
  have "(115 :: real) / 115.2 \<noteq> 1" by simp
  with d s0 s1 h1 c1 show ?thesis by simp
qed

text \<open>The dashboard's display, 11 s after its construction, ticked every 60 ms.\<close>

theorem blink_cycle_witness:
  "running (dashboard_face None 0 0)
   \<and> \<not> blinking (dashboard_face None 0 0)
   \<and> next_blink_in (dashboard_face None 0 0) < 11 - last_blink (dashboard_face None 0 0)
   \<and> eyes_drawn (dashboard_face None 0 0)
   \<and> spaced 0.08 (map fst [(11, 0), (11.06, 0), (11.12, 0), (11.18, 0), (11.24, 0), (11.3, 0 :: real)])
   \<and> map2 (\<lambda>tk s'. blink_state_at (fst tk) s')
        [(11, 0), (11.06, 0), (11.12, 0), (11.18, 0), (11.24, 0), (11.3, 0)]
        (after_ticks [(11, 0), (11.06, 0), (11.12, 0), (11.18, 0), (11.24, 0), (11.3, 0)]
           (dashboard_face None 0 0))
      = [Closing, Closing, Closed, Opening, Opening, Open]
   \<and> map left_coverage
        (after_ticks [(11, 0), (11.06, 0), (11.12, 0), (11.18, 0), (11.24, 0), (11.3, 0)]
           (dashboard_face None 0 0))
      = [0, 86 / 115.2, 115 / 115.2, 115 / 115.2, 28 / 115.2, 0]"
proof -
  let ?F = "dashboard_face None 0 0"
  let ?tks = "[(11, 0), (11.06, 0), (11.12, 0), (11.18, 0), (11.24, 0), (11.3, 0)] :: (real \<times> real) list"
  let ?tr = "after_ticks ?tks ?F"
  have f: "running ?F" "\<not> blinking ?F" "next_blink_in ?F < 11 - last_blink ?F" "eyes_drawn ?F"
    by (simp_all add: dashboard_face_fields uniform_def)
  have m: "\<forall>tk \<in> set [(11.06 :: real, 0 :: real), (11.12, 0), (11.18, 0), (11.24, 0)].
      11 \<le> fst tk \<and> fst tk < 11 + 0.26" by simp
  have fin: "(11 :: real) + 0.26 \<le> 11.3" by simp
  have t: "?tks = (11, 0) # [(11.06, 0), (11.12, 0), (11.18, 0), (11.24, 0)] @ [(11.3, 0)]" by simp
  note c = blink_cycle [OF f m fin t refl]
  from c have len: "length ?tr = 6" by simp
  from c have per: "\<forall>i < 6.
          blink_state_at (fst (?tks ! i)) (?tr ! i) =
            (if fst (?tks ! i) - 11 < 0.08 then Closing
             else if fst (?tks ! i) - 11 < 0.18 then Closed
             else if fst (?tks ! i) - 11 < 0.26 then Opening else Open)
        \<and> (fst (?tks ! i) - 11 < 0.26 \<longrightarrow>
              left_coverage (?tr ! i) =
                real_of_int (lid_pixels (eye_radius ?F) (fst (?tks ! i) - 11)) / (2 * eye_radius ?F))
        \<and> (0.26 \<le> fst (?tks ! i) - 11 \<longrightarrow> left_coverage (?tr ! i) = 0)"
    by simp
  have s: "blink_state_at 11 (?tr ! 0) = Closing" "blink_state_at 11.06 (?tr ! 1) = Closing"
    "blink_state_at 11.12 (?tr ! 2) = Closed" "blink_state_at 11.18 (?tr ! 3) = Opening"
    "blink_state_at 11.24 (?tr ! 4) = Opening" "blink_state_at 11.3 (?tr ! 5) = Open"
    using per [rule_format, of 0] per [rule_format, of 1] per [rule_format, of 2]
      per [rule_format, of 3] per [rule_format, of 4] per [rule_format, of 5]
    by simp_all
  have v: "left_coverage (?tr ! 0) = 0" "left_coverage (?tr ! 1) = 86 / 115.2"
    "left_coverage (?tr ! 2) = 115 / 115.2" "left_coverage (?tr ! 3) = 115 / 115.2"
    "left_coverage (?tr ! 4) = 28 / 115.2" "left_coverage (?tr ! 5) = 0"
    using per [rule_format, of 0] per [rule_format, of 1] per [rule_format, of 2]
      per [rule_format, of 3] per [rule_format, of 4] per [rule_format, of 5]
    by (simp_all add: lid_pixels_def dashboard_face_fields)
  from len obtain a b c d e g where tr: "?tr = [a, b, c, d, e, g]"
    by (auto simp: length_Suc_conv eval_nat_numeral)
  have sp: "spaced 0.08 (map fst ?tks)" by simp
  show ?thesis
    using f sp s v unfolding tr by simp
qed

subsection \<open>Stopping and starting\<close>

lemma loop_stopped: "loop now r (stop s) = (stop s, Inr [])"
  by (simp add: loop_def stop_def)

lemma fire_stopped: "fire now r (stop s, n) = (stop s, n - 1)"
  by (simp add: fire_def loop_stopped)

lemma fires_stopped: "fires ins (stop s, n) = (stop s, n - length ins)"
  by (induction ins arbitrary: n) (simp_all add: fires_def fire_stopped split: prod.splits)

text \<open>C9. After \<^verbatim>\<open>stop()\<close>, a call of \<^verbatim>\<open>_loop\<close> returns at once: the object is unchanged
  and nothing is scheduled. So each pending call only leaves the timer queue, which, with
  no new \<^verbatim>\<open>start()\<close>, empties and stays empty.\<close>

theorem stop_ends_ticks:
  "loop now r (stop s) = (stop s, Inr [])
   \<and> fire now r (stop s, n) = (stop s, n - 1)
   \<and> fires ins (stop s, n) = (stop s, n - length ins)"
  by (simp add: loop_stopped fire_stopped fires_stopped)

text \<open>C10. \<^verbatim>\<open>start(interval_ms)\<close> on a running display changes nothing, the tick interval
  included, and schedules nothing.\<close>

theorem start_when_running: "running s \<Longrightarrow> start ms s = (s, [])"
  by (simp add: start_def)

text \<open>A display started at 60 ms, started again at 100 ms.\<close>

theorem start_when_running_witness:
  "running (fst (start 60 (init 640 320 None 0 0)))
   \<and> start 100 (fst (start 60 (init 640 320 None 0 0))) = (fst (start 60 (init 640 320 None 0 0)), [])
   \<and> interval_ms (fst (start 100 (fst (start 60 (init 640 320 None 0 0))))) = 60"
proof -
  have r: "running (fst (start 60 (init 640 320 None 0 0)))"
    by (simp add: start_def init_def Let_def)
  from start_when_running [OF r, of 100] r show ?thesis
    by (simp add: start_def init_def Let_def)
qed

subsection \<open>The blink interval\<close>

text \<open>Whatever the history, the stored interval lies in \<open>[3, 12]\<close> when every draw of
  \<^verbatim>\<open>random()\<close> lies in \<open>[0, 1]\<close>.\<close>

lemma uniform_3_12: "0 \<le> r \<Longrightarrow> r \<le> 1 \<Longrightarrow> 3 \<le> uniform 3 12 r \<and> uniform 3 12 r \<le> 12"
  by (simp add: uniform_def)

lemma interval_ok_blink_update:
  assumes "interval_ok s" "0 \<le> r" "r \<le> 1" "blink_update now r s = Inr s2"
  shows "interval_ok s2"
  using assms uniform_3_12 [of r]
  by (auto simp: blink_update_def interval_ok_def Let_def draw_blink_def clear_blink_def
        split: if_splits option.splits)

lemma interval_ok_loop:
  assumes "interval_ok s" "0 \<le> r" "r \<le> 1"
  shows "interval_ok (fst (loop now r s))"
proof (cases "running s")
  case False
  with assms(1) show ?thesis by (simp add: loop_def)
next
  case True
  show ?thesis
  proof (cases "blink_update now r s")
    case (Inl e)
    with True assms(1) show ?thesis by (simp add: loop_def)
  next
    case (Inr s2)
    from interval_ok_blink_update [OF assms Inr] loop_blink_part [OF True Inr]
    show ?thesis by (simp add: interval_ok_def)
  qed
qed

lemma interval_ok_run:
  assumes "interval_ok s" "draws_ok es"
  shows "interval_ok (run es s)"
  using assms unfolding run_def draws_ok_def
proof (induction es arbitrary: s)
  case Nil
  then show ?case by simp
next
  case (Cons e es)
  have "interval_ok (exec e s)"
    using Cons.prems
    by (cases e) (simp_all add: interval_ok_loop,
        simp_all add: interval_ok_def start_def stop_def update_from_angles_def apply_offsets_def Let_def)
  with Cons show ?case by simp
qed

lemma next_blink_in_range:
  assumes "0 \<le> r0" "r0 \<le> 1" "draws_ok es"
  shows "3 \<le> next_blink_in (run es (init w h pt now r0))
       \<and> next_blink_in (run es (init w h pt now r0)) \<le> 12"
proof -
  have "interval_ok (init w h pt now r0)"
    using assms(1,2) by (simp add: interval_ok_def init_def Let_def uniform_def)
  from interval_ok_run [OF this assms(3)] show ?thesis by (simp add: interval_ok_def)
qed

text \<open>C8. \<^verbatim>\<open>__init__\<close> draws the first interval with \<^verbatim>\<open>random.uniform(3.0, 10.0)\<close>, not
  from 3 to 12 as the redraw after a blink does: with the draw 0.9 the display starts
  with 9.3 s, where \<^verbatim>\<open>uniform(3.0, 12.0)\<close> gives 11.1 s.\<close>

theorem init_blink_interval_range:
  "next_blink_in (init w h pt now r) = uniform 3 10 r
   \<and> next_blink_in (init 640 320 None 0 (9 / 10)) = 9.3
   \<and> uniform 3 12 (9 / 10) = 11.1"
  by (simp add: init_def Let_def uniform_def)

subsection \<open>The magnitude of the offset\<close>

text \<open>C6 as stated fails: each axis is clamped on its own. On the default display
  (travel 31.6), pan 180 and tilt 30 give the offset (31.6, 18.96), of magnitude about
  36.9.\<close>

theorem offset_magnitude_counterexample:
  "\<not> sqrt ((fst (angle_to_offset (init 640 320 None 0 0) 180 30))\<^sup>2
          + (snd (angle_to_offset (init 640 320 None 0 0) 180 30))\<^sup>2)
       \<le> pupil_travel (init 640 320 None 0 0)"
proof -
  let ?s = "init 640 320 None 0 0"
  have o: "angle_to_offset ?s 180 30 = (31.6, 18.96)"
    by (simp add: angle_to_offset_def init_def Let_def py_int_def)
  have "(31.6::real) < sqrt ((31.6)\<^sup>2 + (18.96)\<^sup>2)"
    by (rule real_less_rsqrt) (simp add: power2_eq_square)
  then show ?thesis by (simp add: o pupil_travel_default)
qed

lemma sin_cos_sums:
  fixes x y :: real
  shows "\<bar>sin x * 2.0 + sin y * 1.0\<bar> \<le> 3" and "\<bar>cos x * 1.2 * 0.6\<bar> \<le> 0.72"
proof -
  have b: "- 1 \<le> sin x" "sin x \<le> 1" "- 1 \<le> sin y" "sin y \<le> 1"
    by simp_all
  have "\<bar>sin x * 2 + sin y\<bar> \<le> 3" using b by linarith
  then show "\<bar>sin x * 2.0 + sin y * 1.0\<bar> \<le> 3" by simp
  have "\<bar>cos x * 1.2 * 0.6\<bar> = \<bar>cos x\<bar> * 0.72" by (simp add: abs_mult)
  also have "\<dots> \<le> 1 * 0.72" by (intro mult_right_mono) simp_all
  finally show "\<bar>cos x * 1.2 * 0.6\<bar> \<le> 0.72" by simp
qed

lemma idle_offsets_bounds:
  "\<bar>fst (idle_offsets t)\<bar> \<le> 3" "\<bar>snd (idle_offsets t)\<bar> \<le> 0.72"
  unfolding idle_offsets_def Let_def fst_conv snd_conv
  by (rule sin_cos_sums)+

lemma clamp_abs:
  fixes T :: real
  assumes "0 \<le> T"
  shows "\<bar>max (- 1) (min 1 x) * T\<bar> \<le> T"
  using clamp_times_travel [OF assms, of x] by linarith

lemma angle_to_offset_abs:
  assumes "0 \<le> pupil_travel s"
  shows "\<bar>fst (angle_to_offset s pan tilt)\<bar> \<le> pupil_travel s"
    and "\<bar>snd (angle_to_offset s pan tilt)\<bar> \<le> 0.6 * pupil_travel s"
proof -
  have T6: "0 \<le> pupil_travel s * 0.6" using assms by simp
  show "\<bar>fst (angle_to_offset s pan tilt)\<bar> \<le> pupil_travel s"
    using clamp_abs [OF assms, of "((pan - pan_min s) / (pan_max s - pan_min s) - 0.5) * 2.0"]
    by (simp add: angle_to_offset_def Let_def)
  show "\<bar>snd (angle_to_offset s pan tilt)\<bar> \<le> 0.6 * pupil_travel s"
    using clamp_abs [OF T6, of "- ((tilt - tilt_min s) / (tilt_max s - tilt_min s) - 0.5) * 2.0"]
    by (simp add: angle_to_offset_def Let_def)
qed

lemma sq_le_of_abs_le:
  fixes x b :: real
  assumes "\<bar>x\<bar> \<le> b"
  shows "x\<^sup>2 \<le> b\<^sup>2"
proof -
  have "0 \<le> b" using assms by linarith
  then have "\<bar>x\<bar> \<le> \<bar>b\<bar>" using assms by simp
  then show ?thesis by (rule abs_le_square_iff [THEN iffD1])
qed

text \<open>C6, amended. On a display whose travel \<open>T\<close> is not negative, the offset of
  \<^verbatim>\<open>angle_to_offset\<close> has \<open>|dx| \<le> T\<close> and \<open>|dy| \<le> 0.6 * T\<close>, so its magnitude is at most
  \<open>sqrt 1.36 * T\<close>; the idle offset has \<open>|dx| \<le> 3\<close> and \<open>|dy| \<le> 0.72\<close> whatever the
  travel, so its magnitude is at most \<open>T\<close> when \<open>T\<close> is at least 3.1.\<close>

theorem offset_bounds:
  assumes "0 \<le> pupil_travel s"
  shows "\<bar>fst (angle_to_offset s pan tilt)\<bar> \<le> pupil_travel s
       \<and> \<bar>snd (angle_to_offset s pan tilt)\<bar> \<le> 0.6 * pupil_travel s
       \<and> sqrt ((fst (angle_to_offset s pan tilt))\<^sup>2 + (snd (angle_to_offset s pan tilt))\<^sup>2)
            \<le> sqrt 1.36 * pupil_travel s
       \<and> \<bar>fst (idle_offsets t)\<bar> \<le> 3
       \<and> \<bar>snd (idle_offsets t)\<bar> \<le> 0.72
       \<and> (3.1 \<le> pupil_travel s \<longrightarrow>
            sqrt ((fst (idle_offsets t))\<^sup>2 + (snd (idle_offsets t))\<^sup>2) \<le> pupil_travel s)"
proof -
  let ?T = "pupil_travel s"
  let ?dx = "fst (angle_to_offset s pan tilt)" and ?dy = "snd (angle_to_offset s pan tilt)"
  let ?jx = "fst (idle_offsets t)" and ?jy = "snd (idle_offsets t)"
  have dx: "\<bar>?dx\<bar> \<le> ?T" and dy: "\<bar>?dy\<bar> \<le> 0.6 * ?T"
    using assms by (rule angle_to_offset_abs)+
  have "?dx\<^sup>2 + ?dy\<^sup>2 \<le> ?T\<^sup>2 + (0.6 * ?T)\<^sup>2"
    using sq_le_of_abs_le [OF dx] sq_le_of_abs_le [OF dy] by (rule add_mono)
  also have "\<dots> = 1.36 * ?T\<^sup>2" by (simp add: power2_eq_square algebra_simps)
  finally have "sqrt (?dx\<^sup>2 + ?dy\<^sup>2) \<le> sqrt (1.36 * ?T\<^sup>2)" by (rule real_sqrt_le_mono)
  also have "\<dots> = sqrt 1.36 * sqrt (?T\<^sup>2)" by (rule real_sqrt_mult)
  also have "sqrt (?T\<^sup>2) = ?T" using assms by simp
  finally have mag: "sqrt (?dx\<^sup>2 + ?dy\<^sup>2) \<le> sqrt 1.36 * ?T" .
  have idle: "sqrt (?jx\<^sup>2 + ?jy\<^sup>2) \<le> ?T" if big: "3.1 \<le> ?T"
  proof (rule real_le_lsqrt)
    show "0 \<le> ?T" by (rule assms)
    have "?jx\<^sup>2 + ?jy\<^sup>2 \<le> 3\<^sup>2 + (0.72)\<^sup>2"
      using sq_le_of_abs_le [OF idle_offsets_bounds(1)] sq_le_of_abs_le [OF idle_offsets_bounds(2)]
      by (rule add_mono)
    also have "\<dots> \<le> (3.1::real)\<^sup>2" by (simp add: power2_eq_square)
    also have "\<dots> \<le> ?T\<^sup>2" using big by (intro power_mono) simp_all
    finally show "?jx\<^sup>2 + ?jy\<^sup>2 \<le> ?T\<^sup>2" .
  qed
  show ?thesis using dx dy mag idle idle_offsets_bounds [of t] by simp
qed

text \<open>The default display, at the corner (180, 30) and at idle time 0.\<close>

theorem offset_bounds_witness:
  "0 \<le> pupil_travel (init 640 320 None 0 0)
   \<and> \<bar>fst (angle_to_offset (init 640 320 None 0 0) 180 30)\<bar> \<le> pupil_travel (init 640 320 None 0 0)
   \<and> \<bar>snd (angle_to_offset (init 640 320 None 0 0) 180 30)\<bar> \<le> 0.6 * pupil_travel (init 640 320 None 0 0)
   \<and> sqrt ((fst (idle_offsets 0))\<^sup>2 + (snd (idle_offsets 0))\<^sup>2) \<le> pupil_travel (init 640 320 None 0 0)"
proof -
  have T: "0 \<le> pupil_travel (init 640 320 None 0 0)" "3.1 \<le> pupil_travel (init 640 320 None 0 0)"
    by (simp_all add: pupil_travel_default)
  from offset_bounds [OF T(1), of 180 30 0] T show ?thesis by simp
qed

end
